theory Spec2Isabelle
  imports Main "HOL-Library.AList" "HOL-Library.Word"
begin

section \<open>JSON documents and the struct decoder\<close>

text \<open>
  Both services hand the request body, respectively the log message, to Go's
  \<^verbatim>\<open>encoding/json\<close>. The byte level of JSON (tokens, escapes, white space) belongs to that
  package; the model starts from the document the bytes denote. \<open>None\<close> stands for bytes
  that are not one well-formed JSON document. Object members keep their order and their
  duplicates. A number literal is either an integer literal (\<open>JInt\<close>) or a literal with a
  fraction or an exponent (\<open>JFrac\<close>), which no integer field accepts. Strings are the byte
  strings the decoder delivers.
\<close>

datatype json =
    JNull
  | JBool bool
  | JInt int
  | JFrac
  | JStr string
  | JArr "json list"
  | JObj "(string \<times> json) list"

datatype decode_error =
    SyntaxError
  | UnknownField string
  | TypeError string
  | TimeError string

text \<open>
  Object keys are matched to struct fields by their \<^verbatim>\<open>json:"..."\<close> names: an exact match
  first, otherwise a match of the folded names. Folding maps ASCII letters to upper case;
  the only runes outside ASCII that fold to an ASCII letter are U+017F (bytes C5 BF, to S)
  and U+212A (bytes E2 84 AA, to K).
\<close>

definition upperASCII :: "char \<Rightarrow> char" where
  "upperASCII c =
     (let n = (of_char c :: nat) in if 97 \<le> n \<and> n \<le> 122 then char_of (n - 32) else c)"

fun foldName :: "string \<Rightarrow> string" where
  "foldName (a # b # c # r) =
     (if (of_char a :: nat) = 0xE2 \<and> (of_char b :: nat) = 0x84 \<and> (of_char c :: nat) = 0xAA
        then CHR ''K'' # foldName r
      else if (of_char a :: nat) = 0xC5 \<and> (of_char b :: nat) = 0xBF
        then CHR ''S'' # foldName (c # r)
      else upperASCII a # foldName (b # c # r))"
| "foldName [a, b] =
     (if (of_char a :: nat) = 0xC5 \<and> (of_char b :: nat) = 0xBF then [CHR ''S'']
      else [upperASCII a, upperASCII b])"
| "foldName [a] = [upperASCII a]"
| "foldName [] = []"

definition find_field :: "string list \<Rightarrow> string \<Rightarrow> string option" where
  "find_field names key =
     (if key \<in> set names then Some key
      else find (\<lambda>n. foldName n = foldName key) names)"

text \<open>
  Decoding one value into a field of a given Go type. \<^verbatim>\<open>null\<close> leaves a string, an integer
  and a time untouched and resets a map; a value of the wrong JSON kind, or an integer
  outside the range of the field's type, is an error.
\<close>

definition decode_string :: "string \<Rightarrow> json \<Rightarrow> string \<Rightarrow> decode_error + string" where
  "decode_string f v cur =
     (case v of JStr s \<Rightarrow> Inr s | JNull \<Rightarrow> Inr cur | _ \<Rightarrow> Inl (TypeError f))"

definition decode_int :: "nat \<Rightarrow> string \<Rightarrow> json \<Rightarrow> int \<Rightarrow> decode_error + int" where
  "decode_int bits f v cur =
     (case v of
        JInt n \<Rightarrow> if - (2 ^ (bits - 1)) \<le> n \<and> n < 2 ^ (bits - 1) then Inr n
                  else Inl (TypeError f)
      | JNull \<Rightarrow> Inr cur
      | _ \<Rightarrow> Inl (TypeError f))"

fun decode_map_members ::
  "string \<Rightarrow> (string \<times> json) list \<Rightarrow> (string \<times> string) list
     \<Rightarrow> decode_error + (string \<times> string) list" where
  "decode_map_members f [] m = Inr m"
| "decode_map_members f ((k, v) # kvs) m =
     (case v of
        JStr s \<Rightarrow> decode_map_members f kvs (AList.update k s m)
      | JNull \<Rightarrow> decode_map_members f kvs (AList.update k [] m)
      | _ \<Rightarrow> Inl (TypeError f))"

definition decode_attrs ::
  "string \<Rightarrow> json \<Rightarrow> (string \<times> string) list \<Rightarrow> decode_error + (string \<times> string) list" where
  "decode_attrs f v cur =
     (case v of
        JObj kvs \<Rightarrow> decode_map_members f kvs cur
      | JNull \<Rightarrow> Inr []
      | _ \<Rightarrow> Inl (TypeError f))"

text \<open>
  Decoding an object into a struct: the members in order, each into the field its key
  names. A key that names no field is skipped, or in strict mode
  (\<^verbatim>\<open>DisallowUnknownFields\<close>) an error. The decoder reports failure whenever some member
  fails; the partly filled struct is then discarded by both callers.
\<close>

fun decode_object ::
  "bool \<Rightarrow> string list \<Rightarrow> (string \<Rightarrow> json \<Rightarrow> 'r \<Rightarrow> decode_error + 'r)
     \<Rightarrow> (string \<times> json) list \<Rightarrow> 'r \<Rightarrow> decode_error + 'r" where
  "decode_object strict names setf [] r = Inr r"
| "decode_object strict names setf ((k, v) # kvs) r =
     (case find_field names k of
        None \<Rightarrow>
          if strict then Inl (UnknownField k) else decode_object strict names setf kvs r
      | Some f \<Rightarrow>
          (case setf f v r of
             Inl e \<Rightarrow> Inl e
           | Inr r' \<Rightarrow> decode_object strict names setf kvs r'))"

definition decode_struct ::
  "bool \<Rightarrow> string list \<Rightarrow> (string \<Rightarrow> json \<Rightarrow> 'r \<Rightarrow> decode_error + 'r)
     \<Rightarrow> 'r \<Rightarrow> json option \<Rightarrow> decode_error + 'r" where
  "decode_struct strict names setf zero doc =
     (case doc of
        None \<Rightarrow> Inl SyntaxError
      | Some JNull \<Rightarrow> Inr zero
      | Some (JObj kvs) \<Rightarrow> decode_object strict names setf kvs zero
      | Some _ \<Rightarrow> Inl (TypeError []))"

section \<open>Random identifiers and formatted numbers\<close>

text \<open>
  \<^verbatim>\<open>randomHex(nBytes)\<close> allocates \<open>nBytes\<close> zero bytes, lets \<^verbatim>\<open>crypto/rand\<close> fill them and
  ignores the reader's result, then hex-encodes. The second argument is what the reader
  delivers: bytes it did not deliver stay zero.
\<close>

definition hexdigit :: "nat \<Rightarrow> char" where
  "hexdigit n = ''0123456789abcdef'' ! n"

definition EncodeToString :: "8 word list \<Rightarrow> string" where
  "EncodeToString bs =
     concat (map (\<lambda>b. [hexdigit (unat b div 16), hexdigit (unat b mod 16)]) bs)"

definition rand_Read :: "nat \<Rightarrow> 8 word list \<Rightarrow> 8 word list" where
  "rand_Read n src = take n src @ replicate (n - length src) 0"

definition randomHex :: "nat \<Rightarrow> 8 word list \<Rightarrow> string" where
  "randomHex nBytes src = EncodeToString (rand_Read nBytes src)"

definition is_hex :: "char \<Rightarrow> bool" where
  "is_hex c = (c \<in> set ''0123456789abcdef'')"

definition is_digit :: "char \<Rightarrow> bool" where
  "is_digit c = (c \<in> set ''0123456789'')"

text \<open>The verb \<^verbatim>\<open>%0wd\<close> of \<^verbatim>\<open>fmt.Sprintf\<close>: decimal, padded with zeros to width \<open>w\<close>,
  the sign first.\<close>

function decimal :: "nat \<Rightarrow> string" where
  "decimal n = (if n < 10 then [hexdigit n] else decimal (n div 10) @ [hexdigit (n mod 10)])"
  by pat_completeness auto
termination
  by (relation "measure id") auto

declare decimal.simps [simp del]

definition zero_pad :: "nat \<Rightarrow> string \<Rightarrow> string" where
  "zero_pad w s = replicate (w - length s) (CHR ''0'') @ s"

definition fmt_0d :: "nat \<Rightarrow> int \<Rightarrow> string" where
  "fmt_0d w n =
     (if n < 0 then CHR ''-'' # zero_pad (w - 1) (decimal (nat (- n)))
      else zero_pad w (decimal (nat n)))"

section \<open>The writer consumer (services/writer-consumer/main.go)\<close>

subsection \<open>Events and their parsing\<close>

text \<open>The row struct \<^verbatim>\<open>TelemetryEvent\<close> of the consumer: the twelve columns of the
  persisted schema. Instants are milliseconds since the Unix epoch.\<close>

record wc_TelemetryEvent =
  wc_Timestamp :: int
  wc_Service :: string
  wc_CustomerID :: string
  wc_Endpoint :: string
  wc_Method :: string
  wc_StatusCode :: int
  wc_LatencyMs :: int
  wc_TraceID :: string
  wc_Error :: string
  wc_Environment :: string
  wc_SchemaVer :: int
  wc_IngestedAt :: int

text \<open>The struct \<^verbatim>\<open>rawEvent\<close> that a message is decoded into. Fields of Go's type
  \<^verbatim>\<open>int32\<close> are integers that the decoder has checked to lie in the 32-bit range; no
  arithmetic is done on them.\<close>

record rawEvent =
  r_Timestamp :: string
  r_Service :: string
  r_CustomerID :: string
  r_Endpoint :: string
  r_Method :: string
  r_StatusCode :: int
  r_LatencyMs :: int
  r_TraceID :: string
  r_Error :: string
  r_Environment :: string
  r_SchemaVer :: int
  r_IngestedAt :: string
  r_Attributes :: "(string \<times> string) list"

definition rawEvent_zero :: rawEvent where
  "rawEvent_zero =
     \<lparr>r_Timestamp = [], r_Service = [], r_CustomerID = [], r_Endpoint = [], r_Method = [],
      r_StatusCode = 0, r_LatencyMs = 0, r_TraceID = [], r_Error = [], r_Environment = [],
      r_SchemaVer = 0, r_IngestedAt = [], r_Attributes = []\<rparr>"

definition rawEvent_fields :: "string list" where
  "rawEvent_fields =
     [''timestamp'', ''service'', ''customer_id'', ''endpoint'', ''method'', ''status_code'',
      ''latency_ms'', ''trace_id'', ''error'', ''environment'', ''schema_version'',
      ''ingested_at'', ''attributes'']"

definition set_rawEvent :: "string \<Rightarrow> json \<Rightarrow> rawEvent \<Rightarrow> decode_error + rawEvent" where
  "set_rawEvent f v r =
     (if f = ''timestamp'' then
        map_sum id (\<lambda>x. r\<lparr>r_Timestamp := x\<rparr>) (decode_string f v (r_Timestamp r))
      else if f = ''service'' then
        map_sum id (\<lambda>x. r\<lparr>r_Service := x\<rparr>) (decode_string f v (r_Service r))
      else if f = ''customer_id'' then
        map_sum id (\<lambda>x. r\<lparr>r_CustomerID := x\<rparr>) (decode_string f v (r_CustomerID r))
      else if f = ''endpoint'' then
        map_sum id (\<lambda>x. r\<lparr>r_Endpoint := x\<rparr>) (decode_string f v (r_Endpoint r))
      else if f = ''method'' then
        map_sum id (\<lambda>x. r\<lparr>r_Method := x\<rparr>) (decode_string f v (r_Method r))
      else if f = ''status_code'' then
        map_sum id (\<lambda>x. r\<lparr>r_StatusCode := x\<rparr>) (decode_int 32 f v (r_StatusCode r))
      else if f = ''latency_ms'' then
        map_sum id (\<lambda>x. r\<lparr>r_LatencyMs := x\<rparr>) (decode_int 32 f v (r_LatencyMs r))
      else if f = ''trace_id'' then
        map_sum id (\<lambda>x. r\<lparr>r_TraceID := x\<rparr>) (decode_string f v (r_TraceID r))
      else if f = ''error'' then
        map_sum id (\<lambda>x. r\<lparr>r_Error := x\<rparr>) (decode_string f v (r_Error r))
      else if f = ''environment'' then
        map_sum id (\<lambda>x. r\<lparr>r_Environment := x\<rparr>) (decode_string f v (r_Environment r))
      else if f = ''schema_version'' then
        map_sum id (\<lambda>x. r\<lparr>r_SchemaVer := x\<rparr>) (decode_int 32 f v (r_SchemaVer r))
      else if f = ''ingested_at'' then
        map_sum id (\<lambda>x. r\<lparr>r_IngestedAt := x\<rparr>) (decode_string f v (r_IngestedAt r))
      else
        map_sum id (\<lambda>x. r\<lparr>r_Attributes := x\<rparr>) (decode_attrs f v (r_Attributes r)))"

text \<open>\<^verbatim>\<open>json.Unmarshal(b, &r)\<close> for a \<^verbatim>\<open>rawEvent\<close>: not strict, keys that name no field
  (such as \<^verbatim>\<open>request_id\<close>) are skipped.\<close>

definition Unmarshal_rawEvent :: "json option \<Rightarrow> decode_error + rawEvent" where
  "Unmarshal_rawEvent doc = decode_struct False rawEvent_fields set_rawEvent rawEvent_zero doc"

text \<open>
  Instants are nanoseconds since the Unix epoch, as unbounded integers. \<open>parse\<close> is
  \<^verbatim>\<open>time.Parse(time.RFC3339Nano, s)\<close> of package \<^verbatim>\<open>time\<close> (\<open>None\<close> when it returns an error);
  \<open>now_ts\<close> and \<open>now_ing\<close> are the two readings of \<^verbatim>\<open>time.Now()\<close> that the fall-backs take.
\<close>

definition UnixMilli :: "int \<Rightarrow> int" where
  "UnixMilli t = t div 1000000"

definition parseKafkaJSON ::
  "(string \<Rightarrow> int option) \<Rightarrow> int \<Rightarrow> int \<Rightarrow> json option \<Rightarrow> decode_error + wc_TelemetryEvent" where
  "parseKafkaJSON parse now_ts now_ing b =
     (case Unmarshal_rawEvent b of
        Inl err \<Rightarrow> Inl err
      | Inr r \<Rightarrow>
          let ts = (case parse (r_Timestamp r) of None \<Rightarrow> now_ts | Some t \<Rightarrow> t);
              ing = (case parse (r_IngestedAt r) of None \<Rightarrow> now_ing | Some t \<Rightarrow> t)
          in Inr \<lparr>wc_Timestamp = UnixMilli ts,
                  wc_Service = r_Service r,
                  wc_CustomerID = r_CustomerID r,
                  wc_Endpoint = r_Endpoint r,
                  wc_Method = r_Method r,
                  wc_StatusCode = r_StatusCode r,
                  wc_LatencyMs = r_LatencyMs r,
                  wc_TraceID = r_TraceID r,
                  wc_Error = r_Error r,
                  wc_Environment = r_Environment r,
                  wc_SchemaVer = r_SchemaVer r,
                  wc_IngestedAt = UnixMilli ing\<rparr>)"

subsection \<open>Handler state, flush and the consume loop\<close>

record Config =
  KafkaBrokers :: string
  KafkaTopic :: string
  KafkaGroup :: string
  MinIOEndpoint :: string
  MinIOAccessKey :: string
  MinIOSecretKey :: string
  MinIOBucket :: string
  MinIOUseSSL :: bool
  FlushEveryN :: int
  FlushEverySecs :: int

record WriterHandler =
  cfg :: Config
  events :: "wc_TelemetryEvent list"
  lastFlush :: int

text \<open>What the handler does to the outside, in order: positions marked for commit, log
  lines, the object stored by a successful \<^verbatim>\<open>PutObject\<close> (bucket, key and the batch the
  uploaded file encodes), the temporary file removed. \<open>FlushCall\<close> marks the places where
  the loop calls \<^verbatim>\<open>h.flush\<close>.\<close>

datatype flush_error =
    WriteParquetError string
  | StatError string
  | OpenError string
  | UploadError string

datatype effect =
    MarkMessage int
  | LogBadEvent decode_error
  | FlushCall
  | LogFlushError flush_error
  | PutObject string string "wc_TelemetryEvent list"
  | LogFlushed nat string string int
  | RemoveFile string string

text \<open>The UTC calendar fields that \<^verbatim>\<open>Year()\<close>, \<^verbatim>\<open>Month()\<close>, \<^verbatim>\<open>Day()\<close> and \<^verbatim>\<open>Hour()\<close> report
  for a reading of the clock.\<close>

record civil =
  Year :: int
  Month :: int
  Day :: int
  Hour :: int

text \<open>
  Everything one call of \<^verbatim>\<open>flush\<close> observes of its surroundings: the clock at its start,
  the bytes of the random source for the key and for the temporary file's name, the
  temporary directory, the results of the fallible library calls in the order the code
  makes them (\<open>None\<close>: no error; \<^verbatim>\<open>os.Stat\<close> yields the file's size), and the clock after
  the upload.
\<close>

record flush_env =
  fe_now :: civil
  fe_rand_key :: "8 word list"
  fe_rand_tmp :: "8 word list"
  fe_tmpdir :: string
  fe_new_file :: "string option"
  fe_new_writer :: "string option"
  fe_row :: "wc_TelemetryEvent \<Rightarrow> string option"
  fe_stop :: "string option"
  fe_stat :: "string + int"
  fe_open :: "string option"
  fe_put :: "string option"
  fe_done :: int

text \<open>
  \<^verbatim>\<open>writeParquet\<close> opens the file writer and the Parquet writer of the library, writes the
  events in order and stops at the first row the library's \<^verbatim>\<open>Write\<close> rejects, then calls
  \<^verbatim>\<open>WriteStop\<close>. What the library writes to the file is outside the model; a path is the
  pair of directory and file name that \<^verbatim>\<open>filepath.Join\<close> joins.
\<close>

fun write_rows :: "(wc_TelemetryEvent \<Rightarrow> string option) \<Rightarrow> wc_TelemetryEvent list \<Rightarrow> string option" where
  "write_rows wr [] = None"
| "write_rows wr (ev # evs) = (case wr ev of Some err \<Rightarrow> Some err | None \<Rightarrow> write_rows wr evs)"

definition writeParquet ::
  "flush_env \<Rightarrow> string \<times> string \<Rightarrow> wc_TelemetryEvent list \<Rightarrow> string option" where
  "writeParquet e path evs =
     (case fe_new_file e of
        Some err \<Rightarrow> Some err
      | None \<Rightarrow>
          (case fe_new_writer e of
             Some err \<Rightarrow> Some err
           | None \<Rightarrow>
               (case write_rows (fe_row e) evs of
                  Some err \<Rightarrow> Some err
                | None \<Rightarrow> fe_stop e)))"

definition object_key :: "civil \<Rightarrow> string \<Rightarrow> string" where
  "object_key now suffix =
     ''telemetry/parquet/date='' @ fmt_0d 4 (Year now) @ ''-'' @ fmt_0d 2 (Month now) @ ''-''
       @ fmt_0d 2 (Day now) @ ''/hour='' @ fmt_0d 2 (Hour now) @ ''/batch-'' @ suffix
       @ ''.parquet''"

definition flush :: "flush_env \<Rightarrow> WriterHandler \<Rightarrow> flush_error option \<times> WriterHandler \<times> effect list" where
  "flush e h =
     (if events h = [] then (None, h, [])
      else
        let key = object_key (fe_now e) (randomHex 8 (fe_rand_key e));
            tmpName = ''tigerscope-'' @ randomHex 6 (fe_rand_tmp e) @ ''.parquet'';
            tmpFile = (fe_tmpdir e, tmpName)
        in case writeParquet e tmpFile (events h) of
             Some err \<Rightarrow> (Some (WriteParquetError err), h, [])
           | None \<Rightarrow>
               (case fe_stat e of
                  Inl err \<Rightarrow> (Some (StatError err), h, [])
                | Inr sz \<Rightarrow>
                    (case fe_open e of
                       Some err \<Rightarrow> (Some (OpenError err), h, [])
                     | None \<Rightarrow>
                         (case fe_put e of
                            Some err \<Rightarrow> (Some (UploadError err), h, [])
                          | None \<Rightarrow>
                              (None,
                               h\<lparr>events := [], lastFlush := fe_done e\<rparr>,
                               [PutObject (MinIOBucket (cfg h)) key (events h),
                                LogFlushed (length (events h)) (MinIOBucket (cfg h)) key sz,
                                RemoveFile (fst tmpFile) (snd tmpFile)])))))"

text \<open>
  Durations are signed 64-bit counts of nanoseconds.
  \<^verbatim>\<open>time.Duration(FlushEverySecs) * time.Second\<close> wraps around; \<^verbatim>\<open>time.Since\<close> saturates.
\<close>

definition wrap64 :: "int \<Rightarrow> int" where
  "wrap64 x = (x + 2 ^ 63) mod 2 ^ 64 - 2 ^ 63"

definition flush_interval :: "Config \<Rightarrow> int" where
  "flush_interval c = wrap64 (FlushEverySecs c * 1000000000)"

definition Since :: "int \<Rightarrow> int \<Rightarrow> int" where
  "Since now t = max (- (2 ^ 63)) (min (2 ^ 63 - 1) (now - t))"

text \<open>
  One iteration of the loop of \<^verbatim>\<open>ConsumeClaim\<close> observes: the library's time parser and
  the clock readings of the two fall-backs (when a message is parsed), the clock (read by
  \<^verbatim>\<open>time.Since\<close> on a tick), and the surroundings of a flush, should one be called.
\<close>

record iter_env =
  ie_parse :: "string \<Rightarrow> int option"
  ie_now_ts :: int
  ie_now_ing :: int
  ie_clock :: int
  ie_flush :: flush_env

record ConsumerMessage =
  Value :: "json option"
  Offset :: int

text \<open>What \<^verbatim>\<open>select\<close> picks in an iteration: a message, the closed message channel, a
  tick of the ticker, or the cancelled session context.\<close>

datatype input =
    Message ConsumerMessage iter_env
  | Closed
  | Tick iter_env
  | CtxDone

definition call_flush :: "flush_env \<Rightarrow> WriterHandler \<Rightarrow> WriterHandler \<times> effect list" where
  "call_flush e h =
     (case flush e h of
        (None, h', effs) \<Rightarrow> (h', FlushCall # effs)
      | (Some err, h', effs) \<Rightarrow> (h', FlushCall # effs @ [LogFlushError err]))"

definition on_message :: "WriterHandler \<Rightarrow> ConsumerMessage \<Rightarrow> iter_env \<Rightarrow> WriterHandler \<times> effect list" where
  "on_message h msg w =
     (case parseKafkaJSON (ie_parse w) (ie_now_ts w) (ie_now_ing w) (Value msg) of
        Inl err \<Rightarrow> (h, [LogBadEvent err, MarkMessage (Offset msg)])
      | Inr ev \<Rightarrow>
          let h1 = h\<lparr>events := events h @ [ev]\<rparr> in
          if int (length (events h1)) \<ge> FlushEveryN (cfg h1) then
            (case call_flush (ie_flush w) h1 of
               (h2, effs) \<Rightarrow> (h2, MarkMessage (Offset msg) # effs))
          else (h1, [MarkMessage (Offset msg)]))"

definition on_tick :: "WriterHandler \<Rightarrow> iter_env \<Rightarrow> WriterHandler \<times> effect list" where
  "on_tick h w =
     (if Since (ie_clock w) (lastFlush h) \<ge> flush_interval (cfg h) \<and> length (events h) > 0
      then call_flush (ie_flush w) h
      else (h, []))"

text \<open>The loop over the inputs that \<^verbatim>\<open>select\<close> delivers. It returns the handler, the
  effects of each iteration, and whether the loop has returned (it does so on a closed
  channel or a cancelled context, and is still running when the inputs end).\<close>

fun consume_loop :: "WriterHandler \<Rightarrow> input list \<Rightarrow> WriterHandler \<times> effect list list \<times> bool" where
  "consume_loop h [] = (h, [], False)"
| "consume_loop h (Message msg w # ins) =
     (case on_message h msg w of
        (h', effs) \<Rightarrow>
          (case consume_loop h' ins of (h'', out, ret) \<Rightarrow> (h'', effs # out, ret)))"
| "consume_loop h (Closed # ins) = (h, [], True)"
| "consume_loop h (Tick w # ins) =
     (case on_tick h w of
        (h', effs) \<Rightarrow>
          (case consume_loop h' ins of (h'', out, ret) \<Rightarrow> (h'', effs # out, ret)))"
| "consume_loop h (CtxDone # ins) = (h, [], True)"

text \<open>\<^verbatim>\<open>time.NewTicker\<close> panics on an interval that is not positive.\<close>

datatype panic = NonPositiveTickerInterval

definition ConsumeClaim ::
  "WriterHandler \<Rightarrow> input list \<Rightarrow> panic + (WriterHandler \<times> effect list list \<times> bool)" where
  "ConsumeClaim h ins =
     (if flush_interval (cfg h) \<le> 0 then Inl NonPositiveTickerInterval
      else Inr (consume_loop h ins))"

section \<open>The ingestion API (the \<^verbatim>\<open>/ingest\<close> handler)\<close>

subsection \<open>strings.TrimSpace\<close>

text \<open>
  \<^verbatim>\<open>strings.TrimSpace\<close> removes the runes with Unicode's White\_Space property from both
  ends of a string. On the bytes of a string these are the following UTF-8 encodings:
  U+0009 to U+000D, U+0020, U+0085, U+00A0, U+1680, U+2000 to U+200A, U+2028, U+2029,
  U+202F, U+205F and U+3000.
\<close>

definition space_encodings :: "nat list list" where
  "space_encodings =
     [[0x09], [0x0A], [0x0B], [0x0C], [0x0D], [0x20], [0xC2, 0x85], [0xC2, 0xA0],
      [0xE1, 0x9A, 0x80]]
     @ map (\<lambda>b. [0xE2, 0x80, b]) [0x80 ..< 0x8B]
     @ [[0xE2, 0x80, 0xA8], [0xE2, 0x80, 0xA9], [0xE2, 0x80, 0xAF], [0xE2, 0x81, 0x9F],
        [0xE3, 0x80, 0x80]]"

definition leading_space :: "string \<Rightarrow> nat" where
  "leading_space s =
     (case find (\<lambda>e. take (length e) (map of_char s) = e) space_encodings of
        None \<Rightarrow> 0
      | Some e \<Rightarrow> length e)"

definition trailing_space :: "string \<Rightarrow> nat" where
  "trailing_space s =
     (case find (\<lambda>e. length e \<le> length s \<and> drop (length s - length e) (map of_char s) = e)
             space_encodings of
        None \<Rightarrow> 0
      | Some e \<Rightarrow> length e)"

lemma find_holds: "find P xs = Some x \<Longrightarrow> P x"
  by (induction xs) (auto split: if_splits)

lemma leading_space_le: "leading_space s \<le> length s"
proof (cases "find (\<lambda>e. take (length e) (map of_char s) = e) space_encodings")
  case None
  then show ?thesis by (simp add: leading_space_def)
next
  case (Some e)
  then have eq: "take (length e) (map of_char s) = e"
    by (rule find_holds)
  have "length e = length (take (length e) (map of_char s :: nat list))"
    by (simp only: eq)
  then have "length e \<le> length s"
    by simp
  with Some show ?thesis by (simp add: leading_space_def)
qed

lemma trailing_space_le: "trailing_space s \<le> length s"
proof (cases "find (\<lambda>e. length e \<le> length s \<and> drop (length s - length e) (map of_char s) = e)
             space_encodings")
  case None
  then show ?thesis by (simp add: trailing_space_def)
next
  case (Some e)
  then have "length e \<le> length s \<and> drop (length s - length e) (map of_char s) = e"
    by (rule find_holds)
  with Some show ?thesis by (simp add: trailing_space_def)
qed

function TrimLeft :: "string \<Rightarrow> string" where
  "TrimLeft s = (if leading_space s = 0 then s else TrimLeft (drop (leading_space s) s))"
  by pat_completeness auto
termination
proof (relation "measure length")
  show "wf (measure length)" by simp
next
  fix s :: string
  assume "leading_space s \<noteq> 0"
  moreover have "leading_space s \<le> length s" by (rule leading_space_le)
  ultimately show "(drop (leading_space s) s, s) \<in> measure length" by simp
qed

function TrimRight :: "string \<Rightarrow> string" where
  "TrimRight s =
     (if trailing_space s = 0 then s else TrimRight (take (length s - trailing_space s) s))"
  by pat_completeness auto
termination
proof (relation "measure length")
  show "wf (measure length)" by simp
next
  fix s :: string
  assume "trailing_space s \<noteq> 0"
  moreover have "trailing_space s \<le> length s" by (rule trailing_space_le)
  ultimately show "(take (length s - trailing_space s) s, s) \<in> measure length" by simp
qed

declare TrimLeft.simps [simp del] TrimRight.simps [simp del]

definition TrimSpace :: "string \<Rightarrow> string" where
  "TrimSpace s = TrimRight (TrimLeft s)"

subsection \<open>The request struct and its decoding\<close>

text \<open>A \<^verbatim>\<open>time.Time\<close>: the instant in nanoseconds since the Unix epoch and the offset of
  its location from UTC in seconds. The zero \<^verbatim>\<open>time.Time\<close> is the first instant of year 1
  in UTC.\<close>

record gotime =
  unix_ns :: int
  zone :: int

definition zero_time :: gotime where
  "zero_time = \<lparr>unix_ns = - 62135596800000000000, zone = 0\<rparr>"

definition IsZero :: "gotime \<Rightarrow> bool" where
  "IsZero t = (unix_ns t = unix_ns zero_time)"

definition UTC :: "gotime \<Rightarrow> gotime" where
  "UTC t = t\<lparr>zone := 0\<rparr>"

record TelemetryEvent =
  Timestamp :: gotime
  Service :: string
  CustomerID :: string
  Endpoint :: string
  Method :: string
  StatusCode :: int
  LatencyMs :: int
  TraceID :: string
  Error :: string
  Attributes :: "(string \<times> string) list"
  RequestID :: string
  IngestedAt :: gotime
  SchemaVer :: int
  Environment :: string

definition TelemetryEvent_zero :: TelemetryEvent where
  "TelemetryEvent_zero =
     \<lparr>Timestamp = zero_time, Service = [], CustomerID = [], Endpoint = [], Method = [],
      StatusCode = 0, LatencyMs = 0, TraceID = [], Error = [], Attributes = [],
      RequestID = [], IngestedAt = zero_time, SchemaVer = 0, Environment = []\<rparr>"

definition TelemetryEvent_fields :: "string list" where
  "TelemetryEvent_fields =
     [''timestamp'', ''service'', ''customer_id'', ''endpoint'', ''method'', ''status_code'',
      ''latency_ms'', ''trace_id'', ''error'', ''attributes'', ''request_id'', ''ingested_at'',
      ''schema_version'', ''environment'']"

text \<open>A time field takes a JSON string that \<^verbatim>\<open>time.Time.UnmarshalJSON\<close> can parse (the
  parameter \<open>parse\<close>, \<open>None\<close> when it returns an error). The integer fields have Go's type
  \<^verbatim>\<open>int\<close>, taken as 64 bits wide.\<close>

definition decode_time ::
  "(string \<Rightarrow> gotime option) \<Rightarrow> string \<Rightarrow> json \<Rightarrow> gotime \<Rightarrow> decode_error + gotime" where
  "decode_time parse f v cur =
     (case v of
        JStr s \<Rightarrow> (case parse s of None \<Rightarrow> Inl (TimeError f) | Some t \<Rightarrow> Inr t)
      | JNull \<Rightarrow> Inr cur
      | _ \<Rightarrow> Inl (TimeError f))"

definition set_TelemetryEvent ::
  "(string \<Rightarrow> gotime option) \<Rightarrow> string \<Rightarrow> json \<Rightarrow> TelemetryEvent
     \<Rightarrow> decode_error + TelemetryEvent" where
  "set_TelemetryEvent parse f v ev =
     (if f = ''timestamp'' then
        map_sum id (\<lambda>x. ev\<lparr>Timestamp := x\<rparr>) (decode_time parse f v (Timestamp ev))
      else if f = ''service'' then
        map_sum id (\<lambda>x. ev\<lparr>Service := x\<rparr>) (decode_string f v (Service ev))
      else if f = ''customer_id'' then
        map_sum id (\<lambda>x. ev\<lparr>CustomerID := x\<rparr>) (decode_string f v (CustomerID ev))
      else if f = ''endpoint'' then
        map_sum id (\<lambda>x. ev\<lparr>Endpoint := x\<rparr>) (decode_string f v (Endpoint ev))
      else if f = ''method'' then
        map_sum id (\<lambda>x. ev\<lparr>Method := x\<rparr>) (decode_string f v (Method ev))
      else if f = ''status_code'' then
        map_sum id (\<lambda>x. ev\<lparr>StatusCode := x\<rparr>) (decode_int 64 f v (StatusCode ev))
      else if f = ''latency_ms'' then
        map_sum id (\<lambda>x. ev\<lparr>LatencyMs := x\<rparr>) (decode_int 64 f v (LatencyMs ev))
      else if f = ''trace_id'' then
        map_sum id (\<lambda>x. ev\<lparr>TraceID := x\<rparr>) (decode_string f v (TraceID ev))
      else if f = ''error'' then
        map_sum id (\<lambda>x. ev\<lparr>Error := x\<rparr>) (decode_string f v (Error ev))
      else if f = ''attributes'' then
        map_sum id (\<lambda>x. ev\<lparr>Attributes := x\<rparr>) (decode_attrs f v (Attributes ev))
      else if f = ''request_id'' then
        map_sum id (\<lambda>x. ev\<lparr>RequestID := x\<rparr>) (decode_string f v (RequestID ev))
      else if f = ''ingested_at'' then
        map_sum id (\<lambda>x. ev\<lparr>IngestedAt := x\<rparr>) (decode_time parse f v (IngestedAt ev))
      else if f = ''schema_version'' then
        map_sum id (\<lambda>x. ev\<lparr>SchemaVer := x\<rparr>) (decode_int 64 f v (SchemaVer ev))
      else
        map_sum id (\<lambda>x. ev\<lparr>Environment := x\<rparr>) (decode_string f v (Environment ev)))"

text \<open>\<^verbatim>\<open>dec.DisallowUnknownFields(); dec.Decode(&ev)\<close>: strict. The document is the first
  JSON value of the request body.\<close>

definition Decode :: "(string \<Rightarrow> gotime option) \<Rightarrow> json option \<Rightarrow> decode_error + TelemetryEvent" where
  "Decode parse doc =
     decode_struct True TelemetryEvent_fields (set_TelemetryEvent parse) TelemetryEvent_zero doc"

subsection \<open>The handler\<close>

text \<open>
  What one request observes of its surroundings: the deployment's \<^verbatim>\<open>ENVIRONMENT\<close> and
  topic, the library's time parser, the clock, the bytes of the random source for the
  trace and the request identifier, whether \<^verbatim>\<open>json.Marshal\<close> fails on an event, the result
  of \<^verbatim>\<open>SendMessage\<close> (an error text, or partition and offset), and whether the request's
  context has expired after the send.
\<close>

record api_env =
  ae_env :: string
  ae_topic :: string
  ae_parse :: "string \<Rightarrow> gotime option"
  ae_now :: gotime
  ae_rand_trace :: "8 word list"
  ae_rand_request :: "8 word list"
  ae_marshal_fails :: "TelemetryEvent \<Rightarrow> bool"
  ae_send :: "string + (int \<times> int)"
  ae_ctx_done :: bool

record Request =
  rq_method :: string
  rq_body :: "json option"

text \<open>The message handed to the producer. Its value is the JSON encoding of the event,
  kept here as the event it encodes.\<close>

record ProducerMessage =
  pm_Topic :: string
  pm_Key :: string
  pm_Value :: TelemetryEvent
  pm_Headers :: "(string \<times> string) list"
  pm_Timestamp :: gotime

datatype reject =
    MethodNotAllowed
  | InvalidJSON decode_error
  | MissingRequiredFields
  | MarshalError
  | PublishFailed string
  | RequestTimeout

record accepted =
  ac_status :: string
  ac_topic :: string
  ac_partition :: int
  ac_offset :: int
  ac_trace_id :: string
  ac_request_id :: string

datatype response =
    HttpError nat reject
  | HttpAccepted nat accepted

fun status_code :: "response \<Rightarrow> nat" where
  "status_code (HttpError c r) = c"
| "status_code (HttpAccepted c a) = c"

definition missing_required :: "TelemetryEvent \<Rightarrow> bool" where
  "missing_required ev =
     (TrimSpace (Service ev) = [] \<or>
      TrimSpace (CustomerID ev) = [] \<or>
      TrimSpace (Endpoint ev) = [] \<or>
      TrimSpace (Method ev) = [] \<or>
      StatusCode ev = 0)"

text \<open>The handler of \<^verbatim>\<open>/ingest\<close>: the response and the messages passed to \<^verbatim>\<open>SendMessage\<close>.\<close>

definition ingest :: "api_env \<Rightarrow> Request \<Rightarrow> response \<times> ProducerMessage list" where
  "ingest a rq =
     (if rq_method rq \<noteq> ''POST'' then (HttpError 405 MethodNotAllowed, [])
      else
        case Decode (ae_parse a) (rq_body rq) of
          Inl err \<Rightarrow> (HttpError 400 (InvalidJSON err), [])
        | Inr ev0 \<Rightarrow>
            let now = UTC (ae_now a);
                ev1 = ev0\<lparr>Timestamp := (if IsZero (Timestamp ev0) then now
                                          else UTC (Timestamp ev0)),
                           IngestedAt := now,
                           SchemaVer := 1,
                           Environment := ae_env a\<rparr>
            in
              if missing_required ev1 then (HttpError 400 MissingRequiredFields, [])
              else
                let ev2 = ev1\<lparr>TraceID := (if TraceID ev1 = []
                                            then randomHex 16 (ae_rand_trace a)
                                            else TraceID ev1),
                               RequestID := randomHex 12 (ae_rand_request a)\<rparr>
                in
                  if ae_marshal_fails a ev2 then (HttpError 500 MarshalError, [])
                  else
                    let msg = \<lparr>pm_Topic = ae_topic a,
                               pm_Key = CustomerID ev2,
                               pm_Value = ev2,
                               pm_Headers = [(''service'', Service ev2), (''env'', ae_env a)],
                               pm_Timestamp = now\<rparr>
                    in
                      case ae_send a of
                        Inl err \<Rightarrow> (HttpError 502 (PublishFailed err), [msg])
                      | Inr (part, off) \<Rightarrow>
                          if ae_ctx_done a then (HttpError 504 RequestTimeout, [msg])
                          else
                            (HttpAccepted 202
                               \<lparr>ac_status = ''accepted'', ac_topic = ae_topic a,
                                ac_partition = part, ac_offset = off,
                                ac_trace_id = TraceID ev2, ac_request_id = RequestID ev2\<rparr>,
                             [msg]))"

section \<open>Vocabulary of the properties\<close>

text \<open>The result of parsing the message of an iteration, as \<^verbatim>\<open>ConsumeClaim\<close> computes it.\<close>

abbreviation parse_message :: "iter_env \<Rightarrow> ConsumerMessage \<Rightarrow> decode_error + wc_TelemetryEvent" where
  "parse_message w msg \<equiv> parseKafkaJSON (ie_parse w) (ie_now_ts w) (ie_now_ing w) (Value msg)"

definition flush_called :: "effect list \<Rightarrow> bool" where
  "flush_called effs = (FlushCall \<in> set effs)"

fun is_put :: "effect \<Rightarrow> bool" where
  "is_put (PutObject b k evs) = True"
| "is_put x = False"

text \<open>The flush condition in the specification's words: the buffered count has reached
  \<open>N\<close>, or the buffer is not empty and the time since the last successful flush has
  reached \<open>T\<close>.\<close>

definition spec_shouldFlush :: "int \<Rightarrow> int \<Rightarrow> int \<Rightarrow> int \<Rightarrow> bool" where
  "spec_shouldFlush N T buffered elapsed = (buffered \<ge> N \<or> (buffered > 0 \<and> elapsed \<ge> T))"

text \<open>Surroundings in which every library call of a flush succeeds.\<close>

definition calls_succeed :: "flush_env \<Rightarrow> bool" where
  "calls_succeed e =
     (fe_new_file e = None \<and> fe_new_writer e = None \<and> (\<forall>ev. fe_row e ev = None) \<and>
      fe_stop e = None \<and> (\<exists>sz. fe_stat e = Inr sz) \<and> fe_open e = None \<and> fe_put e = None)"

text \<open>An input that is a message which parses, in surroundings where a flush would
  succeed.\<close>

fun good_message :: "input \<Rightarrow> bool" where
  "good_message (Message msg w) =
     ((\<exists>ev. parse_message w msg = Inr ev) \<and> calls_succeed (ie_flush w))"
| "good_message i = False"

text \<open>The calendar fields a clock can report, with a year of four digits.\<close>

definition civil_ok :: "civil \<Rightarrow> bool" where
  "civil_ok c =
     (0 \<le> Year c \<and> Year c \<le> 9999 \<and> 1 \<le> Month c \<and> Month c \<le> 12 \<and>
      1 \<le> Day c \<and> Day c \<le> 31 \<and> 0 \<le> Hour c \<and> Hour c \<le> 23)"

text \<open>The number a string of decimal digits denotes.\<close>

definition decimal_value :: "string \<Rightarrow> nat" where
  "decimal_value s = foldl (\<lambda>a ch. 10 * a + (of_char ch - 48)) 0 s"

text \<open>A key of the request object that names no field of the request struct.\<close>

definition unknown_key :: "string \<Rightarrow> bool" where
  "unknown_key k = (find_field TelemetryEvent_fields k = None)"

section \<open>Example inputs\<close>

definition example_cfg :: Config where
  "example_cfg =
     \<lparr>KafkaBrokers = ''localhost:9092'', KafkaTopic = ''telemetry.events'',
      KafkaGroup = ''tigerscope-writer'', MinIOEndpoint = ''localhost:9000'',
      MinIOAccessKey = ''minioadmin'', MinIOSecretKey = ''minioadmin'',
      MinIOBucket = ''tigerscope'', MinIOUseSSL = False,
      FlushEveryN = 500, FlushEverySecs = 5\<rparr>"

definition example_event :: wc_TelemetryEvent where
  "example_event =
     \<lparr>wc_Timestamp = 1767225600000, wc_Service = ''auth'', wc_CustomerID = ''c1'',
      wc_Endpoint = ''/x'', wc_Method = ''GET'', wc_StatusCode = 200, wc_LatencyMs = 12,
      wc_TraceID = ''0123456789abcdef0123456789abcdef'', wc_Error = [],
      wc_Environment = ''local'', wc_SchemaVer = 1, wc_IngestedAt = 1767225601000\<rparr>"

definition example_flush_env :: flush_env where
  "example_flush_env =
     \<lparr>fe_now = \<lparr>Year = 2026, Month = 1, Day = 1, Hour = 0\<rparr>,
      fe_rand_key = [0x01, 0x23, 0x45, 0x67, 0x89, 0xAB, 0xCD, 0xEF],
      fe_rand_tmp = [0x0A, 0x0B, 0x0C, 0x0D, 0x0E, 0x0F],
      fe_tmpdir = ''/tmp'',
      fe_new_file = None, fe_new_writer = None, fe_row = (\<lambda>ev. None), fe_stop = None,
      fe_stat = Inr 4096, fe_open = None, fe_put = None,
      fe_done = 1767225607000000000\<rparr>"

definition example_handler :: WriterHandler where
  "example_handler =
     \<lparr>cfg = example_cfg, events = [example_event], lastFlush = 1767225600000000000\<rparr>"

text \<open>A sample of the library's time parser: it knows two instants and rejects every
  other string, the empty one among them.\<close>

definition example_parse :: "string \<Rightarrow> int option" where
  "example_parse s =
     (if s = ''2026-01-01T00:00:00Z'' then Some 1767225600000000000
      else if s = ''2026-01-01T00:00:01Z'' then Some 1767225601000000000
      else None)"

definition example_iter_env :: iter_env where
  "example_iter_env =
     \<lparr>ie_parse = example_parse,
      ie_now_ts = 1767225607000000000,
      ie_now_ing = 1767225607000000001,
      ie_clock = 1767225607000000000,
      ie_flush = example_flush_env\<rparr>"

text \<open>A message as the ingestion API publishes it, one whose time stamps do not parse,
  and one that is no JSON document.\<close>

definition example_message :: ConsumerMessage where
  "example_message =
     \<lparr>Value = Some (JObj
        [(''timestamp'', JStr ''2026-01-01T00:00:00Z''), (''service'', JStr ''auth''),
         (''customer_id'', JStr ''c1''), (''endpoint'', JStr ''/x''), (''method'', JStr ''GET''),
         (''status_code'', JInt 200), (''latency_ms'', JInt 12),
         (''trace_id'', JStr ''0123456789abcdef0123456789abcdef''),
         (''request_id'', JStr ''0123456789abcdef01234567''),
         (''ingested_at'', JStr ''2026-01-01T00:00:01Z''), (''schema_version'', JInt 1),
         (''environment'', JStr ''local'')]),
      Offset = 41\<rparr>"

definition example_message_bad_time :: ConsumerMessage where
  "example_message_bad_time =
     \<lparr>Value = Some (JObj
        [(''timestamp'', JStr ''yesterday''), (''service'', JStr ''auth''),
         (''customer_id'', JStr ''c1''), (''status_code'', JInt 200)]),
      Offset = 42\<rparr>"

definition example_message_poison :: ConsumerMessage where
  "example_message_poison = \<lparr>Value = None, Offset = 43\<rparr>"

text \<open>A message with neither time stamp, and the row that the message whose time stamps
  do not parse is turned into.\<close>

definition example_message_bare :: ConsumerMessage where
  "example_message_bare = \<lparr>Value = Some (JObj [(''service'', JStr ''auth'')]), Offset = 44\<rparr>"

definition example_event_bad_time :: wc_TelemetryEvent where
  "example_event_bad_time =
     \<lparr>wc_Timestamp = 1767225607000, wc_Service = ''auth'', wc_CustomerID = ''c1'',
      wc_Endpoint = [], wc_Method = [], wc_StatusCode = 200, wc_LatencyMs = 0,
      wc_TraceID = [], wc_Error = [], wc_Environment = [], wc_SchemaVer = 0,
      wc_IngestedAt = 1767225607000\<rparr>"

definition example_handler_n1 :: WriterHandler where
  "example_handler_n1 =
     \<lparr>cfg = example_cfg\<lparr>FlushEveryN := 1\<rparr>, events = [example_event],
      lastFlush = 1767225600000000000\<rparr>"

definition example_flush_env_down :: flush_env where
  "example_flush_env_down = example_flush_env\<lparr>fe_put := Some ''connection refused''\<rparr>"

definition example_handler_empty :: WriterHandler where
  "example_handler_empty =
     \<lparr>cfg = example_cfg, events = [], lastFlush = 1767225600000000000\<rparr>"

definition example_handler_n0 :: WriterHandler where
  "example_handler_n0 =
     \<lparr>cfg = example_cfg\<lparr>FlushEveryN := 0\<rparr>, events = [example_event],
      lastFlush = 1767225600000000000\<rparr>"

text \<open>A later flush in the same hour, with other bytes from the random source.\<close>

definition example_flush_env_later :: flush_env where
  "example_flush_env_later =
     example_flush_env\<lparr>fe_rand_key := [0xFE, 0xDC, 0xBA, 0x98, 0x76, 0x54, 0x32, 0x10],
                       fe_done := 1767225612000000000\<rparr>"

definition example_handler_two :: WriterHandler where
  "example_handler_two =
     \<lparr>cfg = example_cfg, events = [example_event, example_event],
      lastFlush = 1767225607000000000\<rparr>"

text \<open>A sample of the library's parser of time stamps in requests.\<close>

definition example_api_parse :: "string \<Rightarrow> gotime option" where
  "example_api_parse s =
     (if s = ''2026-01-01T00:00:00Z'' then Some \<lparr>unix_ns = 1767225600000000000, zone = 0\<rparr>
      else if s = ''2025-12-31T19:00:00-05:00''
        then Some \<lparr>unix_ns = 1767225600000000000, zone = - 18000\<rparr>
      else None)"

definition example_api_env :: api_env where
  "example_api_env =
     \<lparr>ae_env = ''local'', ae_topic = ''telemetry.events'', ae_parse = example_api_parse,
      ae_now = \<lparr>unix_ns = 1767225601000000000, zone = 3600\<rparr>,
      ae_rand_trace = [0x00, 0x11, 0x22, 0x33, 0x44, 0x55, 0x66, 0x77,
                       0x88, 0x99, 0xAA, 0xBB, 0xCC, 0xDD, 0xEE, 0xFF],
      ae_rand_request = [0x01, 0x23, 0x45, 0x67, 0x89, 0xAB, 0xCD, 0xEF, 0x01, 0x23, 0x45, 0x67],
      ae_marshal_fails = (\<lambda>ev. False),
      ae_send = Inr (0, 42),
      ae_ctx_done = False\<rparr>"

text \<open>The request of the specification's scenario; the same with an unknown field; the
  same with two keys spelled in another case; one with a blank service; and one that
  tries to set the server's fields and brings its own trace identifier.\<close>

definition example_request :: Request where
  "example_request =
     \<lparr>rq_method = ''POST'',
      rq_body = Some (JObj
        [(''service'', JStr ''auth''), (''customer_id'', JStr ''c1''),
         (''endpoint'', JStr ''/x''), (''method'', JStr ''GET''), (''status_code'', JInt 200)])\<rparr>"

definition example_request_foo :: Request where
  "example_request_foo =
     \<lparr>rq_method = ''POST'',
      rq_body = Some (JObj
        [(''service'', JStr ''auth''), (''customer_id'', JStr ''c1''),
         (''endpoint'', JStr ''/x''), (''method'', JStr ''GET''), (''status_code'', JInt 200),
         (''foo'', JStr ''bar'')])\<rparr>"

definition example_request_upper :: Request where
  "example_request_upper =
     \<lparr>rq_method = ''POST'',
      rq_body = Some (JObj
        [(''SERVICE'', JStr ''auth''), (''Customer_ID'', JStr ''c1''),
         (''endpoint'', JStr ''/x''), (''method'', JStr ''GET''), (''status_code'', JInt 200)])\<rparr>"

definition example_request_blank :: Request where
  "example_request_blank =
     \<lparr>rq_method = ''POST'',
      rq_body = Some (JObj
        [(''service'', JStr ''  ''), (''customer_id'', JStr ''c1''),
         (''endpoint'', JStr ''/x''), (''method'', JStr ''GET''), (''status_code'', JInt 200)])\<rparr>"

definition example_request_forged :: Request where
  "example_request_forged =
     \<lparr>rq_method = ''POST'',
      rq_body = Some (JObj
        [(''service'', JStr ''auth''), (''customer_id'', JStr ''c1''),
         (''endpoint'', JStr ''/x''), (''method'', JStr ''GET''), (''status_code'', JInt 200),
         (''trace_id'', JStr ''my-trace''),
         (''ingested_at'', JStr ''2026-01-01T00:00:00Z''), (''schema_version'', JInt 7),
         (''environment'', JStr ''prod''), (''request_id'', JStr ''mine'')])\<rparr>"

definition example_request_traced :: Request where
  "example_request_traced =
     \<lparr>rq_method = ''POST'',
      rq_body = Some (JObj
        [(''service'', JStr ''auth''), (''customer_id'', JStr ''c1''),
         (''endpoint'', JStr ''/x''), (''method'', JStr ''GET''), (''status_code'', JInt 200),
         (''trace_id'', JStr ''my-trace'')])\<rparr>"

definition example_request_space_trace :: Request where
  "example_request_space_trace =
     \<lparr>rq_method = ''POST'',
      rq_body = Some (JObj
        [(''service'', JStr ''auth''), (''customer_id'', JStr ''c1''),
         (''endpoint'', JStr ''/x''), (''method'', JStr ''GET''), (''status_code'', JInt 200),
         (''trace_id'', JStr ''  '')])\<rparr>"

definition example_payload :: TelemetryEvent where
  "example_payload =
     TelemetryEvent_zero\<lparr>Service := ''auth'', CustomerID := ''c1'', Endpoint := ''/x'',
                          Method := ''GET'', StatusCode := 200\<rparr>"

section \<open>Properties of the writer consumer\<close>

subsection \<open>Flush\<close>

lemma flush_fails_unchanged:
  assumes "flush e h = (Some err, h', effs)"
  shows "h' = h \<and> effs = [] \<and> events h \<noteq> []"
  using assms
  by (auto simp: flush_def Let_def split: if_splits option.splits sum.splits)

lemma flush_ok_nonempty:
  assumes "flush e h = (None, h', effs)" and "events h \<noteq> []"
  shows "h' = h\<lparr>events := [], lastFlush := fe_done e\<rparr> \<and>
         (\<exists>sz. effs = [PutObject (MinIOBucket (cfg h)) (object_key (fe_now e) (randomHex 8 (fe_rand_key e))) (events h),
                 LogFlushed (length (events h)) (MinIOBucket (cfg h)) (object_key (fe_now e) (randomHex 8 (fe_rand_key e))) sz,
                 RemoveFile (fe_tmpdir e) (''tigerscope-'' @ randomHex 6 (fe_rand_tmp e) @ ''.parquet'')])"
  using assms
  by (auto simp: flush_def Let_def split: if_splits option.splits sum.splits)

lemma call_flush_called: "FlushCall \<in> set (snd (call_flush e h))"
  by (auto simp: call_flush_def split: prod.splits option.splits)

text \<open>
  C3. A flush that fails (the encoder, \<^verbatim>\<open>os.Stat\<close>, \<^verbatim>\<open>os.Open\<close> or the upload returns an
  error) leaves the handler as it was: the same events in the same order, the flush
  timer not reset, nothing uploaded. A later flush that succeeds uploads exactly that
  batch; the next tick whose time condition holds, and the next parsed message once the
  size threshold is reached, call flush again on it.
\<close>

theorem failed_flush_keeps_batch:
  assumes "flush e h = (Some err, h', effs)"
  shows "h' = h \<and> events h' = events h \<and> lastFlush h' = lastFlush h \<and> effs = [] \<and>
         (\<forall>e2 h2 effs2. flush e2 h' = (None, h2, effs2) \<longrightarrow>
            (\<exists>key. PutObject (MinIOBucket (cfg h)) key (events h) \<in> set effs2) \<and> events h2 = []) \<and>
         (\<forall>w. flush_interval (cfg h) \<le> Since (ie_clock w) (lastFlush h) \<longrightarrow>
            on_tick h' w = call_flush (ie_flush w) h) \<and>
         (\<forall>msg w ev. FlushEveryN (cfg h) \<le> int (length (events h)) \<and> parse_message w msg = Inr ev \<longrightarrow>
            on_message h' msg w =
              (fst (call_flush (ie_flush w) (h\<lparr>events := events h @ [ev]\<rparr>)),
               MarkMessage (Offset msg) # snd (call_flush (ie_flush w) (h\<lparr>events := events h @ [ev]\<rparr>))))"
proof -
  from assms have same: "h' = h" and none: "effs = []" and ne: "events h \<noteq> []"
    using flush_fails_unchanged by blast+
  have retry: "(\<exists>key. PutObject (MinIOBucket (cfg h)) key (events h) \<in> set effs2) \<and> events h2 = []"
    if "flush e2 h' = (None, h2, effs2)" for e2 h2 effs2
    using flush_ok_nonempty [of e2 h h2 effs2] that same ne by auto
  have tick: "on_tick h' w = call_flush (ie_flush w) h"
    if "flush_interval (cfg h) \<le> Since (ie_clock w) (lastFlush h)" for w
    using that same ne by (simp add: on_tick_def)
  have msg: "on_message h' msg w =
              (fst (call_flush (ie_flush w) (h\<lparr>events := events h @ [ev]\<rparr>)),
               MarkMessage (Offset msg) # snd (call_flush (ie_flush w) (h\<lparr>events := events h @ [ev]\<rparr>)))"
    if "FlushEveryN (cfg h) \<le> int (length (events h))"
      and "parse_message w msg = Inr ev" for msg w ev
    using that same by (simp add: on_message_def Let_def split: prod.splits)
  from same none retry tick msg show ?thesis by blast
qed

lemma example_parse_message:
  "parse_message example_iter_env example_message = Inr example_event"
  by code_simp

lemma example_flush_down:
  "flush example_flush_env_down example_handler_n1 =
     (Some (UploadError ''connection refused''), example_handler_n1, [])"
  by (simp add: flush_def example_flush_env_down_def example_flush_env_def example_handler_n1_def
      writeParquet_def Let_def)

lemma example_interval: "flush_interval (cfg example_handler_n1) = 5000000000"
  by (simp add: flush_interval_def wrap64_def example_handler_n1_def example_cfg_def)

lemma example_flush_ok:
  "flush example_flush_env example_handler_n1 =
     (None, example_handler_n1\<lparr>events := [], lastFlush := 1767225607000000000\<rparr>,
      [PutObject ''tigerscope'' (object_key (fe_now example_flush_env) (randomHex 8 (fe_rand_key example_flush_env))) [example_event],
       LogFlushed 1 ''tigerscope'' (object_key (fe_now example_flush_env) (randomHex 8 (fe_rand_key example_flush_env))) 4096,
       RemoveFile ''/tmp'' (''tigerscope-'' @ randomHex 6 (fe_rand_tmp example_flush_env) @ ''.parquet'')])"
  by (simp add: flush_def example_flush_env_def example_handler_n1_def example_cfg_def writeParquet_def Let_def)

theorem failed_flush_keeps_batch_witness:
  "flush example_flush_env_down example_handler_n1 =
     (Some (UploadError ''connection refused''), example_handler_n1, []) \<and>
   events example_handler_n1 = [example_event] \<and>
   (\<exists>key. PutObject ''tigerscope'' key [example_event]
      \<in> set (snd (snd (flush example_flush_env example_handler_n1)))) \<and>
   events (fst (snd (flush example_flush_env example_handler_n1))) = [] \<and>
   on_tick example_handler_n1 example_iter_env = call_flush example_flush_env example_handler_n1 \<and>
   flush_called (snd (on_message example_handler_n1 example_message example_iter_env))"
proof -
  note T = failed_flush_keeps_batch [OF example_flush_down]
  have b: "MinIOBucket (cfg example_handler_n1) = ''tigerscope''"
    and e: "events example_handler_n1 = [example_event]"
    and l: "lastFlush example_handler_n1 = 1767225600000000000"
    and n: "FlushEveryN (cfg example_handler_n1) = 1"
    and i: "ie_flush example_iter_env = example_flush_env"
    and c: "ie_clock example_iter_env = 1767225607000000000"
    by (simp_all add: example_handler_n1_def example_cfg_def example_iter_env_def)
  note T' = T [THEN conjunct2, THEN conjunct2, THEN conjunct2, THEN conjunct2]
  note retry = T' [THEN conjunct1, rule_format]
  note tick = T' [THEN conjunct2, THEN conjunct1, rule_format]
  note msg = T' [THEN conjunct2, THEN conjunct2, rule_format, OF conjI]
  have c1: "(\<exists>key. PutObject ''tigerscope'' key [example_event]
      \<in> set (snd (snd (flush example_flush_env example_handler_n1)))) \<and>
      events (fst (snd (flush example_flush_env example_handler_n1))) = []"
    using retry [OF example_flush_ok] by (simp add: b e example_flush_ok)
  have since: "flush_interval (cfg example_handler_n1)
      \<le> Since (ie_clock example_iter_env) (lastFlush example_handler_n1)"
    by (simp add: example_interval Since_def l c)
  have c2: "on_tick example_handler_n1 example_iter_env
      = call_flush example_flush_env example_handler_n1"
    using tick [OF since] by (simp add: i)
  have c3: "flush_called (snd (on_message example_handler_n1 example_message example_iter_env))"
    by (subst msg [OF _ example_parse_message])
       (simp_all add: n e flush_called_def call_flush_called)
  show ?thesis
    using example_flush_down c1 c2 c3 by (simp add: e)
qed

subsection \<open>Messages\<close>

lemma flush_effects_no_mark: "MarkMessage off \<notin> set (snd (snd (flush e h)))"
  by (auto simp: flush_def Let_def split: option.splits sum.splits)

lemma call_flush_effects:
  "\<exists>rest. snd (call_flush e h) = FlushCall # rest \<and> MarkMessage off \<notin> set rest"
  using flush_effects_no_mark [of off e h]
  by (cases "flush e h") (auto simp: call_flush_def split: option.splits)

lemma on_message_poison:
  "parse_message w msg = Inl err \<Longrightarrow>
     on_message h msg w = (h, [LogBadEvent err, MarkMessage (Offset msg)])"
  by (simp add: on_message_def)

lemma on_message_parsed:
  "parse_message w msg = Inr ev \<Longrightarrow>
     on_message h msg w =
       (if FlushEveryN (cfg h) \<le> int (length (events h)) + 1
        then (fst (call_flush (ie_flush w) (h\<lparr>events := events h @ [ev]\<rparr>)),
              MarkMessage (Offset msg) # snd (call_flush (ie_flush w) (h\<lparr>events := events h @ [ev]\<rparr>)))
        else (h\<lparr>events := events h @ [ev]\<rparr>, [MarkMessage (Offset msg)]))"
  by (simp add: on_message_def Let_def split: prod.splits)

lemma call_flush_uploads:
  "events h \<noteq> [] \<Longrightarrow>
     events (fst (call_flush e h)) = events h \<or>
     (\<exists>b k. PutObject b k (events h) \<in> set (snd (call_flush e h)))"
  by (cases "flush e h")
     (auto simp: call_flush_def flush_def Let_def split: option.splits sum.splits if_splits)

text \<open>
  C2. In the iteration that receives a message, the message's position is marked for
  commit, exactly once, before the loop calls flush and before any upload. A message
  that does not parse is dropped: the handler is unchanged and the only effects are the
  log line and the mark. A message that parses is appended to the buffer and marked at
  once; the batch a flush of the same iteration uploads then already holds it. The
  effects up to the call of flush are the same whatever the surroundings of the flush
  are, so the mark does not depend on a flush or an upload.
\<close>

theorem position_marked_in_same_step:
  "(\<forall>err. parse_message w msg = Inl err \<longrightarrow>
      on_message h msg w = (h, [LogBadEvent err, MarkMessage (Offset msg)])) \<and>
   (\<forall>ev. parse_message w msg = Inr ev \<longrightarrow>
      (\<exists>h' rest. on_message h msg w = (h', MarkMessage (Offset msg) # rest) \<and>
         MarkMessage (Offset msg) \<notin> set rest \<and>
         (events h' = events h @ [ev] \<or>
          (\<exists>b k. PutObject b k (events h @ [ev]) \<in> set rest)))) \<and>
   length (filter (\<lambda>x. x = MarkMessage (Offset msg)) (snd (on_message h msg w))) = 1 \<and>
   MarkMessage (Offset msg)
     \<in> set (takeWhile (\<lambda>x. x \<noteq> FlushCall \<and> \<not> is_put x) (snd (on_message h msg w))) \<and>
   (\<forall>w'. ie_parse w' = ie_parse w \<and> ie_now_ts w' = ie_now_ts w \<and> ie_now_ing w' = ie_now_ing w \<longrightarrow>
      takeWhile (\<lambda>x. x \<noteq> FlushCall) (snd (on_message h msg w'))
        = takeWhile (\<lambda>x. x \<noteq> FlushCall) (snd (on_message h msg w)))"
proof (cases "parse_message w msg")
  case (Inl err)
  have same: "snd (on_message h msg w') = [LogBadEvent err, MarkMessage (Offset msg)]"
    if "ie_parse w' = ie_parse w \<and> ie_now_ts w' = ie_now_ts w \<and> ie_now_ing w' = ie_now_ing w" for w'
    using that Inl by (simp add: on_message_def)
  show ?thesis
    using Inl same by (simp add: on_message_poison)
next
  case (Inr ev)
  let ?h1 = "h\<lparr>events := events h @ [ev]\<rparr>"
  have ne: "events ?h1 \<noteq> []" by simp
  show ?thesis
  proof (cases "FlushEveryN (cfg h) \<le> int (length (events h)) + 1")
    case True
    obtain r where r: "snd (call_flush (ie_flush w) ?h1) = FlushCall # r"
      "MarkMessage (Offset msg) \<notin> set r"
      using call_flush_effects by blast
    have om: "on_message h msg w = (fst (call_flush (ie_flush w) ?h1), MarkMessage (Offset msg) # FlushCall # r)"
      using Inr True r by (simp add: on_message_parsed)
    have up: "events (fst (call_flush (ie_flush w) ?h1)) = events h @ [ev] \<or>
        (\<exists>b k. PutObject b k (events h @ [ev]) \<in> set (FlushCall # r))"
      using call_flush_uploads [OF ne, of "ie_flush w"] r by simp
    have same: "takeWhile (\<lambda>x. x \<noteq> FlushCall) (snd (on_message h msg w')) = [MarkMessage (Offset msg)]"
      if w': "ie_parse w' = ie_parse w \<and> ie_now_ts w' = ie_now_ts w \<and> ie_now_ing w' = ie_now_ing w" for w'
    proof -
      obtain r' where r': "snd (call_flush (ie_flush w') ?h1) = FlushCall # r'"
        using call_flush_effects by blast
      have "parse_message w' msg = Inr ev" using w' Inr by simp
      then show ?thesis using True r' by (simp add: on_message_parsed)
    qed
    have part2: "\<exists>h' rest. on_message h msg w = (h', MarkMessage (Offset msg) # rest) \<and>
         MarkMessage (Offset msg) \<notin> set rest \<and>
         (events h' = events h @ [ev] \<or> (\<exists>b k. PutObject b k (events h @ [ev]) \<in> set rest))"
      using om r up by (intro exI [of _ "fst (call_flush (ie_flush w) ?h1)"] exI [of _ "FlushCall # r"]) simp
    have part3: "length (filter (\<lambda>x. x = MarkMessage (Offset msg)) (snd (on_message h msg w))) = 1"
    proof -
      have "filter (\<lambda>x. x = MarkMessage (Offset msg)) r = []"
        using r(2) by (auto simp: filter_empty_conv)
      then show ?thesis using om by simp
    qed
    have part4: "MarkMessage (Offset msg)
       \<in> set (takeWhile (\<lambda>x. x \<noteq> FlushCall \<and> \<not> is_put x) (snd (on_message h msg w)))"
      using om by simp
    have part5: "takeWhile (\<lambda>x. x \<noteq> FlushCall) (snd (on_message h msg w'))
        = takeWhile (\<lambda>x. x \<noteq> FlushCall) (snd (on_message h msg w))"
      if "ie_parse w' = ie_parse w \<and> ie_now_ts w' = ie_now_ts w \<and> ie_now_ing w' = ie_now_ing w" for w'
      using same [OF that] om by simp
    have p1: "\<forall>err. parse_message w msg = Inl err \<longrightarrow>
        on_message h msg w = (h, [LogBadEvent err, MarkMessage (Offset msg)])"
      using Inr by simp
    have p2: "\<forall>ev. parse_message w msg = Inr ev \<longrightarrow>
      (\<exists>h' rest. on_message h msg w = (h', MarkMessage (Offset msg) # rest) \<and>
         MarkMessage (Offset msg) \<notin> set rest \<and>
         (events h' = events h @ [ev] \<or>
          (\<exists>b k. PutObject b k (events h @ [ev]) \<in> set rest)))"
      using Inr part2 by simp
    have p5: "\<forall>w'. ie_parse w' = ie_parse w \<and> ie_now_ts w' = ie_now_ts w \<and> ie_now_ing w' = ie_now_ing w \<longrightarrow>
      takeWhile (\<lambda>x. x \<noteq> FlushCall) (snd (on_message h msg w'))
        = takeWhile (\<lambda>x. x \<noteq> FlushCall) (snd (on_message h msg w))"
      using part5 by (intro allI impI)
    show ?thesis by (intro conjI p1 p2 part3 part4 p5)
  next
    case False
    have om: "on_message h msg w = (?h1, [MarkMessage (Offset msg)])"
      using Inr False by (simp add: on_message_parsed)
    have same: "snd (on_message h msg w') = [MarkMessage (Offset msg)]"
      if w': "ie_parse w' = ie_parse w \<and> ie_now_ts w' = ie_now_ts w \<and> ie_now_ing w' = ie_now_ing w" for w'
    proof -
      have "parse_message w' msg = Inr ev" using w' Inr by simp
      then show ?thesis using False by (simp add: on_message_parsed)
    qed
    from Inr om same show ?thesis by simp
  qed
qed


lemma example_parse_poison:
  "parse_message example_iter_env example_message_poison = Inl SyntaxError"
  by code_simp

theorem position_marked_in_same_step_witness:
  "on_message example_handler example_message_poison example_iter_env
     = (example_handler, [LogBadEvent SyntaxError, MarkMessage 43]) \<and>
   (\<exists>h' rest. on_message example_handler_n1 example_message example_iter_env
        = (h', MarkMessage 41 # rest) \<and>
      MarkMessage 41 \<notin> set rest \<and>
      (events h' = [example_event, example_event] \<or>
       (\<exists>b k. PutObject b k [example_event, example_event] \<in> set rest))) \<and>
   length (filter (\<lambda>x. x = MarkMessage 41)
     (snd (on_message example_handler_n1 example_message example_iter_env))) = 1 \<and>
   MarkMessage 41 \<in> set (takeWhile (\<lambda>x. x \<noteq> FlushCall \<and> \<not> is_put x)
     (snd (on_message example_handler_n1 example_message example_iter_env))) \<and>
   takeWhile (\<lambda>x. x \<noteq> FlushCall)
     (snd (on_message example_handler_n1 example_message
        (example_iter_env\<lparr>ie_flush := example_flush_env_down\<rparr>)))
   = takeWhile (\<lambda>x. x \<noteq> FlushCall)
     (snd (on_message example_handler_n1 example_message example_iter_env))"
proof -
  note P = position_marked_in_same_step
    [of example_iter_env example_message_poison example_handler]
  note G = position_marked_in_same_step
    [of example_iter_env example_message example_handler_n1]
  have o1: "Offset example_message_poison = 43" and o2: "Offset example_message = 41"
    and e: "events example_handler_n1 @ [example_event] = [example_event, example_event]"
    by (simp_all add: example_message_poison_def example_message_def example_handler_n1_def)
  have c1: "on_message example_handler example_message_poison example_iter_env
     = (example_handler, [LogBadEvent SyntaxError, MarkMessage 43])"
    using P [THEN conjunct1, rule_format, OF example_parse_poison] by (simp add: o1)
  have c2: "\<exists>h' rest. on_message example_handler_n1 example_message example_iter_env
        = (h', MarkMessage 41 # rest) \<and>
      MarkMessage 41 \<notin> set rest \<and>
      (events h' = [example_event, example_event] \<or>
       (\<exists>b k. PutObject b k [example_event, example_event] \<in> set rest))"
    using G [THEN conjunct2, THEN conjunct1, rule_format, OF example_parse_message]
    by (simp add: o2 e)
  have c3: "length (filter (\<lambda>x. x = MarkMessage 41)
     (snd (on_message example_handler_n1 example_message example_iter_env))) = 1"
    using G [THEN conjunct2, THEN conjunct2, THEN conjunct1] by (simp add: o2)
  have c4: "MarkMessage 41 \<in> set (takeWhile (\<lambda>x. x \<noteq> FlushCall \<and> \<not> is_put x)
     (snd (on_message example_handler_n1 example_message example_iter_env)))"
    using G [THEN conjunct2, THEN conjunct2, THEN conjunct2, THEN conjunct1] by (simp add: o2)
  have c5: "takeWhile (\<lambda>x. x \<noteq> FlushCall)
     (snd (on_message example_handler_n1 example_message
        (example_iter_env\<lparr>ie_flush := example_flush_env_down\<rparr>)))
   = takeWhile (\<lambda>x. x \<noteq> FlushCall)
     (snd (on_message example_handler_n1 example_message example_iter_env))"
    by (rule G [THEN conjunct2, THEN conjunct2, THEN conjunct2, THEN conjunct2, rule_format]) simp
  show ?thesis by (intro conjI c1 c2 c3 c4 c5)
qed

subsection \<open>Time stamps that do not parse\<close>

lemma map_sum_id_Inr: "map_sum id g x = Inr y \<longleftrightarrow> (\<exists>z. x = Inr z \<and> y = g z)"
  by (cases x) auto

lemma set_rawEvent_keeps_Timestamp:
  "set_rawEvent f v r0 = Inr r1 \<Longrightarrow> f \<noteq> ''timestamp'' \<Longrightarrow> r_Timestamp r1 = r_Timestamp r0"
  by (auto simp: set_rawEvent_def map_sum_id_Inr split: if_splits)

lemma set_rawEvent_keeps_IngestedAt:
  "set_rawEvent f v r0 = Inr r1 \<Longrightarrow> f \<noteq> ''ingested_at'' \<Longrightarrow> r_IngestedAt r1 = r_IngestedAt r0"
  by (auto simp: set_rawEvent_def map_sum_id_Inr split: if_splits)

lemma decode_object_keeps_Timestamp:
  "decode_object False rawEvent_fields set_rawEvent kvs r0 = Inr r \<Longrightarrow>
   (\<forall>kv \<in> set kvs. find_field rawEvent_fields (fst kv) \<noteq> Some ''timestamp'') \<Longrightarrow>
   r_Timestamp r = r_Timestamp r0"
proof (induction kvs arbitrary: r0)
  case Nil
  then show ?case by simp
next
  case (Cons kv kvs)
  obtain k v where kv: "kv = (k, v)" by (cases kv)
  show ?case
  proof (cases "find_field rawEvent_fields k")
    case None
    with Cons kv show ?thesis by simp
  next
    case (Some f)
    with Cons.prems kv obtain r1 where r1: "set_rawEvent f v r0 = Inr r1"
      and rest: "decode_object False rawEvent_fields set_rawEvent kvs r1 = Inr r"
      by (auto split: sum.splits)
    from Cons.prems(2) kv Some have "f \<noteq> ''timestamp''" by auto
    with r1 have "r_Timestamp r1 = r_Timestamp r0" by (rule set_rawEvent_keeps_Timestamp)
    moreover from Cons.IH [OF rest] Cons.prems(2) have "r_Timestamp r = r_Timestamp r1" by simp
    ultimately show ?thesis by simp
  qed
qed

lemma decode_object_keeps_IngestedAt:
  "decode_object False rawEvent_fields set_rawEvent kvs r0 = Inr r \<Longrightarrow>
   (\<forall>kv \<in> set kvs. find_field rawEvent_fields (fst kv) \<noteq> Some ''ingested_at'') \<Longrightarrow>
   r_IngestedAt r = r_IngestedAt r0"
proof (induction kvs arbitrary: r0)
  case Nil
  then show ?case by simp
next
  case (Cons kv kvs)
  obtain k v where kv: "kv = (k, v)" by (cases kv)
  show ?case
  proof (cases "find_field rawEvent_fields k")
    case None
    with Cons kv show ?thesis by simp
  next
    case (Some f)
    with Cons.prems kv obtain r1 where r1: "set_rawEvent f v r0 = Inr r1"
      and rest: "decode_object False rawEvent_fields set_rawEvent kvs r1 = Inr r"
      by (auto split: sum.splits)
    from Cons.prems(2) kv Some have "f \<noteq> ''ingested_at''" by auto
    with r1 have "r_IngestedAt r1 = r_IngestedAt r0" by (rule set_rawEvent_keeps_IngestedAt)
    moreover from Cons.IH [OF rest] Cons.prems(2) have "r_IngestedAt r = r_IngestedAt r1" by simp
    ultimately show ?thesis by simp
  qed
qed

lemma parseKafkaJSON_error_iff:
  "parseKafkaJSON p n1 n2 b = Inl err \<longleftrightarrow> Unmarshal_rawEvent b = Inl err"
  by (auto simp: parseKafkaJSON_def Let_def split: sum.splits)

lemma parseKafkaJSON_ok:
  "Unmarshal_rawEvent b = Inr r \<Longrightarrow>
   parseKafkaJSON p n1 n2 b =
     Inr \<lparr>wc_Timestamp = UnixMilli (case p (r_Timestamp r) of None \<Rightarrow> n1 | Some t \<Rightarrow> t),
          wc_Service = r_Service r, wc_CustomerID = r_CustomerID r, wc_Endpoint = r_Endpoint r,
          wc_Method = r_Method r, wc_StatusCode = r_StatusCode r, wc_LatencyMs = r_LatencyMs r,
          wc_TraceID = r_TraceID r, wc_Error = r_Error r, wc_Environment = r_Environment r,
          wc_SchemaVer = r_SchemaVer r,
          wc_IngestedAt = UnixMilli (case p (r_IngestedAt r) of None \<Rightarrow> n2 | Some t \<Rightarrow> t)\<rparr>"
  by (simp add: parseKafkaJSON_def Let_def)


lemma call_flush_no_bad_event: "LogBadEvent err \<notin> set (snd (call_flush e h))"
  by (cases "flush e h")
     (auto simp: call_flush_def flush_def Let_def split: option.splits sum.splits if_splits)

lemma on_message_buffers:
  assumes "parse_message w msg = Inr ev"
  shows "\<exists>h' rest. on_message h msg w = (h', MarkMessage (Offset msg) # rest) \<and>
           (\<forall>err. LogBadEvent err \<notin> set rest) \<and>
           (events h' = events h @ [ev] \<or> (\<exists>b k. PutObject b k (events h @ [ev]) \<in> set rest))"
proof (cases "FlushEveryN (cfg h) \<le> int (length (events h)) + 1")
  case True
  let ?h1 = "h\<lparr>events := events h @ [ev]\<rparr>"
  have ne: "events ?h1 \<noteq> []" by simp
  have om: "on_message h msg w =
      (fst (call_flush (ie_flush w) ?h1), MarkMessage (Offset msg) # snd (call_flush (ie_flush w) ?h1))"
    using assms True by (simp add: on_message_parsed)
  have up: "events (fst (call_flush (ie_flush w) ?h1)) = events h @ [ev] \<or>
      (\<exists>b k. PutObject b k (events h @ [ev]) \<in> set (snd (call_flush (ie_flush w) ?h1)))"
    using call_flush_uploads [OF ne, of "ie_flush w"] by simp
  show ?thesis
    using om up call_flush_no_bad_event
    by (intro exI [of _ "fst (call_flush (ie_flush w) ?h1)"]
              exI [of _ "snd (call_flush (ie_flush w) ?h1)"]) simp
next
  case False
  then have "on_message h msg w = (h\<lparr>events := events h @ [ev]\<rparr>, [MarkMessage (Offset msg)])"
    using assms by (simp add: on_message_parsed)
  then show ?thesis by simp
qed

text \<open>
  C10. Parsing a message fails exactly when \<^verbatim>\<open>json.Unmarshal\<close> into the raw event fails
  (bytes that are no JSON document, a document that is neither an object nor
  \<^verbatim>\<open>null\<close>, a member of the wrong type), and with the same error. When the document
  decodes to a raw event \<open>r\<close>, the message is never a parse failure, and the row that
  is buffered is determined column by column: the ten columns other than the two
  instants are the values of \<open>r\<close>, and each instant is the millisecond value of the
  parsed string, or of the consumer's clock reading when the time parser rejects the
  string. The iteration then behaves as for any parsed message: it appends exactly
  this row, marks the position, logs no bad-event line, and calls flush on the
  extended buffer when the size threshold is reached (so the row is part of the
  uploaded batch). A key that is missing leaves the string empty, which the parser is
  then asked to parse.
\<close>

theorem bad_timestamps_are_not_parse_failures:
  "(\<forall>err. parse_message w msg = Inl err \<longleftrightarrow> Unmarshal_rawEvent (Value msg) = Inl err) \<and>
   (\<forall>r. Unmarshal_rawEvent (Value msg) = Inr r \<longrightarrow>
      (\<exists>ev. parse_message w msg = Inr ev \<and>
         ev = \<lparr>wc_Timestamp = UnixMilli (case ie_parse w (r_Timestamp r) of
                                              None \<Rightarrow> ie_now_ts w | Some t \<Rightarrow> t),
               wc_Service = r_Service r, wc_CustomerID = r_CustomerID r,
               wc_Endpoint = r_Endpoint r, wc_Method = r_Method r,
               wc_StatusCode = r_StatusCode r, wc_LatencyMs = r_LatencyMs r,
               wc_TraceID = r_TraceID r, wc_Error = r_Error r,
               wc_Environment = r_Environment r, wc_SchemaVer = r_SchemaVer r,
               wc_IngestedAt = UnixMilli (case ie_parse w (r_IngestedAt r) of
                                               None \<Rightarrow> ie_now_ing w | Some t \<Rightarrow> t)\<rparr> \<and>
         (ie_parse w (r_Timestamp r) = None \<longrightarrow> wc_Timestamp ev = UnixMilli (ie_now_ts w)) \<and>
         (ie_parse w (r_IngestedAt r) = None \<longrightarrow> wc_IngestedAt ev = UnixMilli (ie_now_ing w)) \<and>
         (\<forall>t. ie_parse w (r_Timestamp r) = Some t \<longrightarrow> wc_Timestamp ev = UnixMilli t) \<and>
         (\<forall>t. ie_parse w (r_IngestedAt r) = Some t \<longrightarrow> wc_IngestedAt ev = UnixMilli t) \<and>
         on_message h msg w =
           (if FlushEveryN (cfg h) \<le> int (length (events h)) + 1
            then (fst (call_flush (ie_flush w) (h\<lparr>events := events h @ [ev]\<rparr>)),
                  MarkMessage (Offset msg)
                    # snd (call_flush (ie_flush w) (h\<lparr>events := events h @ [ev]\<rparr>)))
            else (h\<lparr>events := events h @ [ev]\<rparr>, [MarkMessage (Offset msg)])) \<and>
         (\<exists>h' rest. on_message h msg w = (h', MarkMessage (Offset msg) # rest) \<and>
            (\<forall>err. LogBadEvent err \<notin> set rest) \<and>
            (events h' = events h @ [ev] \<or>
             (\<exists>b k. PutObject b k (events h @ [ev]) \<in> set rest))))) \<and>
   (\<forall>kvs r. Value msg = Some (JObj kvs) \<and> Unmarshal_rawEvent (Value msg) = Inr r \<longrightarrow>
      ((\<forall>kv \<in> set kvs. find_field rawEvent_fields (fst kv) \<noteq> Some ''timestamp'')
          \<longrightarrow> r_Timestamp r = []) \<and>
      ((\<forall>kv \<in> set kvs. find_field rawEvent_fields (fst kv) \<noteq> Some ''ingested_at'')
          \<longrightarrow> r_IngestedAt r = []))"
proof -
  have p1: "\<forall>err. parse_message w msg = Inl err \<longleftrightarrow> Unmarshal_rawEvent (Value msg) = Inl err"
    by (simp add: parseKafkaJSON_error_iff)
  have p2: "\<exists>ev. parse_message w msg = Inr ev \<and>
         ev = \<lparr>wc_Timestamp = UnixMilli (case ie_parse w (r_Timestamp r) of
                                              None \<Rightarrow> ie_now_ts w | Some t \<Rightarrow> t),
               wc_Service = r_Service r, wc_CustomerID = r_CustomerID r,
               wc_Endpoint = r_Endpoint r, wc_Method = r_Method r,
               wc_StatusCode = r_StatusCode r, wc_LatencyMs = r_LatencyMs r,
               wc_TraceID = r_TraceID r, wc_Error = r_Error r,
               wc_Environment = r_Environment r, wc_SchemaVer = r_SchemaVer r,
               wc_IngestedAt = UnixMilli (case ie_parse w (r_IngestedAt r) of
                                               None \<Rightarrow> ie_now_ing w | Some t \<Rightarrow> t)\<rparr> \<and>
         (ie_parse w (r_Timestamp r) = None \<longrightarrow> wc_Timestamp ev = UnixMilli (ie_now_ts w)) \<and>
         (ie_parse w (r_IngestedAt r) = None \<longrightarrow> wc_IngestedAt ev = UnixMilli (ie_now_ing w)) \<and>
         (\<forall>t. ie_parse w (r_Timestamp r) = Some t \<longrightarrow> wc_Timestamp ev = UnixMilli t) \<and>
         (\<forall>t. ie_parse w (r_IngestedAt r) = Some t \<longrightarrow> wc_IngestedAt ev = UnixMilli t) \<and>
         on_message h msg w =
           (if FlushEveryN (cfg h) \<le> int (length (events h)) + 1
            then (fst (call_flush (ie_flush w) (h\<lparr>events := events h @ [ev]\<rparr>)),
                  MarkMessage (Offset msg)
                    # snd (call_flush (ie_flush w) (h\<lparr>events := events h @ [ev]\<rparr>)))
            else (h\<lparr>events := events h @ [ev]\<rparr>, [MarkMessage (Offset msg)])) \<and>
         (\<exists>h' rest. on_message h msg w = (h', MarkMessage (Offset msg) # rest) \<and>
            (\<forall>err. LogBadEvent err \<notin> set rest) \<and>
            (events h' = events h @ [ev] \<or>
             (\<exists>b k. PutObject b k (events h @ [ev]) \<in> set rest)))"
    if r: "Unmarshal_rawEvent (Value msg) = Inr r" for r
  proof -
    define ev where "ev =
      \<lparr>wc_Timestamp = UnixMilli (case ie_parse w (r_Timestamp r) of None \<Rightarrow> ie_now_ts w | Some t \<Rightarrow> t),
       wc_Service = r_Service r, wc_CustomerID = r_CustomerID r, wc_Endpoint = r_Endpoint r,
       wc_Method = r_Method r, wc_StatusCode = r_StatusCode r, wc_LatencyMs = r_LatencyMs r,
       wc_TraceID = r_TraceID r, wc_Error = r_Error r, wc_Environment = r_Environment r,
       wc_SchemaVer = r_SchemaVer r,
       wc_IngestedAt = UnixMilli (case ie_parse w (r_IngestedAt r) of None \<Rightarrow> ie_now_ing w | Some t \<Rightarrow> t)\<rparr>"
    have pe: "parse_message w msg = Inr ev"
      unfolding ev_def by (rule parseKafkaJSON_ok [OF r])
    have ts: "ie_parse w (r_Timestamp r) = None \<longrightarrow> wc_Timestamp ev = UnixMilli (ie_now_ts w)"
      and ing: "ie_parse w (r_IngestedAt r) = None \<longrightarrow> wc_IngestedAt ev = UnixMilli (ie_now_ing w)"
      and ts': "\<forall>t. ie_parse w (r_Timestamp r) = Some t \<longrightarrow> wc_Timestamp ev = UnixMilli t"
      and ing': "\<forall>t. ie_parse w (r_IngestedAt r) = Some t \<longrightarrow> wc_IngestedAt ev = UnixMilli t"
      by (simp_all add: ev_def)
    have om: "on_message h msg w =
           (if FlushEveryN (cfg h) \<le> int (length (events h)) + 1
            then (fst (call_flush (ie_flush w) (h\<lparr>events := events h @ [ev]\<rparr>)),
                  MarkMessage (Offset msg)
                    # snd (call_flush (ie_flush w) (h\<lparr>events := events h @ [ev]\<rparr>)))
            else (h\<lparr>events := events h @ [ev]\<rparr>, [MarkMessage (Offset msg)]))"
      by (rule on_message_parsed [OF pe])
    show ?thesis
      by (rule exI [of _ ev])
         (intro conjI pe ev_def ts ing ts' ing' om on_message_buffers [OF pe])
  qed
  have p3: "((\<forall>kv \<in> set kvs. find_field rawEvent_fields (fst kv) \<noteq> Some ''timestamp'')
          \<longrightarrow> r_Timestamp r = []) \<and>
      ((\<forall>kv \<in> set kvs. find_field rawEvent_fields (fst kv) \<noteq> Some ''ingested_at'')
          \<longrightarrow> r_IngestedAt r = [])"
    if "Value msg = Some (JObj kvs) \<and> Unmarshal_rawEvent (Value msg) = Inr r" for kvs r
  proof -
    from that have v: "Value msg = Some (JObj kvs)" by (rule conjunct1)
    from that have u: "Unmarshal_rawEvent (Value msg) = Inr r" by (rule conjunct2)
    from u have d: "decode_object False rawEvent_fields set_rawEvent kvs rawEvent_zero = Inr r"
      unfolding v by (simp add: Unmarshal_rawEvent_def decode_struct_def)
    show ?thesis
      using decode_object_keeps_Timestamp [OF d] decode_object_keeps_IngestedAt [OF d]
      by (simp add: rawEvent_zero_def)
  qed
  have q2: "\<forall>r. Unmarshal_rawEvent (Value msg) = Inr r \<longrightarrow>
      (\<exists>ev. parse_message w msg = Inr ev \<and>
         ev = \<lparr>wc_Timestamp = UnixMilli (case ie_parse w (r_Timestamp r) of
                                              None \<Rightarrow> ie_now_ts w | Some t \<Rightarrow> t),
               wc_Service = r_Service r, wc_CustomerID = r_CustomerID r,
               wc_Endpoint = r_Endpoint r, wc_Method = r_Method r,
               wc_StatusCode = r_StatusCode r, wc_LatencyMs = r_LatencyMs r,
               wc_TraceID = r_TraceID r, wc_Error = r_Error r,
               wc_Environment = r_Environment r, wc_SchemaVer = r_SchemaVer r,
               wc_IngestedAt = UnixMilli (case ie_parse w (r_IngestedAt r) of
                                               None \<Rightarrow> ie_now_ing w | Some t \<Rightarrow> t)\<rparr> \<and>
         (ie_parse w (r_Timestamp r) = None \<longrightarrow> wc_Timestamp ev = UnixMilli (ie_now_ts w)) \<and>
         (ie_parse w (r_IngestedAt r) = None \<longrightarrow> wc_IngestedAt ev = UnixMilli (ie_now_ing w)) \<and>
         (\<forall>t. ie_parse w (r_Timestamp r) = Some t \<longrightarrow> wc_Timestamp ev = UnixMilli t) \<and>
         (\<forall>t. ie_parse w (r_IngestedAt r) = Some t \<longrightarrow> wc_IngestedAt ev = UnixMilli t) \<and>
         on_message h msg w =
           (if FlushEveryN (cfg h) \<le> int (length (events h)) + 1
            then (fst (call_flush (ie_flush w) (h\<lparr>events := events h @ [ev]\<rparr>)),
                  MarkMessage (Offset msg)
                    # snd (call_flush (ie_flush w) (h\<lparr>events := events h @ [ev]\<rparr>)))
            else (h\<lparr>events := events h @ [ev]\<rparr>, [MarkMessage (Offset msg)])) \<and>
         (\<exists>h' rest. on_message h msg w = (h', MarkMessage (Offset msg) # rest) \<and>
            (\<forall>err. LogBadEvent err \<notin> set rest) \<and>
            (events h' = events h @ [ev] \<or>
             (\<exists>b k. PutObject b k (events h @ [ev]) \<in> set rest))))"
    by (intro allI impI) (rule p2)
  have q3: "\<forall>kvs r. Value msg = Some (JObj kvs) \<and> Unmarshal_rawEvent (Value msg) = Inr r \<longrightarrow>
      ((\<forall>kv \<in> set kvs. find_field rawEvent_fields (fst kv) \<noteq> Some ''timestamp'')
          \<longrightarrow> r_Timestamp r = []) \<and>
      ((\<forall>kv \<in> set kvs. find_field rawEvent_fields (fst kv) \<noteq> Some ''ingested_at'')
          \<longrightarrow> r_IngestedAt r = [])"
    by (intro allI impI) (rule p3)
  show ?thesis by (rule conjI [OF p1 conjI [OF q2 q3]])
qed

lemma example_unmarshal_bad_time:
  "Unmarshal_rawEvent (Value example_message_bad_time) =
     Inr (rawEvent_zero\<lparr>r_Timestamp := ''yesterday'', r_Service := ''auth'',
                         r_CustomerID := ''c1'', r_StatusCode := 200\<rparr>)"
  by code_simp

lemma example_no_ingested_at:
  "\<forall>kv \<in> set [(''timestamp'', JStr ''yesterday''), (''service'', JStr ''auth''),
                 (''customer_id'', JStr ''c1''), (''status_code'', JInt 200)].
     find_field rawEvent_fields (fst kv) \<noteq> Some ''ingested_at''"
  by code_simp

lemma example_unmarshal_message:
  "Unmarshal_rawEvent (Value example_message) =
     Inr \<lparr>r_Timestamp = ''2026-01-01T00:00:00Z'', r_Service = ''auth'', r_CustomerID = ''c1'',
          r_Endpoint = ''/x'', r_Method = ''GET'', r_StatusCode = 200, r_LatencyMs = 12,
          r_TraceID = ''0123456789abcdef0123456789abcdef'', r_Error = [],
          r_Environment = ''local'', r_SchemaVer = 1,
          r_IngestedAt = ''2026-01-01T00:00:01Z'', r_Attributes = []\<rparr>"
  by code_simp

lemma example_unmarshal_bare:
  "Unmarshal_rawEvent (Value example_message_bare) = Inr (rawEvent_zero\<lparr>r_Service := ''auth''\<rparr>)"
  by code_simp

lemma example_no_timestamp:
  "\<forall>kv \<in> set [(''service'', JStr ''auth'')].
     find_field rawEvent_fields (fst kv) \<noteq> Some ''timestamp''"
  by code_simp

theorem bad_timestamps_are_not_parse_failures_witness:
  "parse_message example_iter_env example_message_poison = Inl SyntaxError \<and>
   parse_message example_iter_env example_message = Inr example_event \<and>
   on_message example_handler example_message example_iter_env
     = (example_handler\<lparr>events := [example_event, example_event]\<rparr>, [MarkMessage 41]) \<and>
   parse_message example_iter_env example_message_bad_time = Inr example_event_bad_time \<and>
   on_message example_handler example_message_bad_time example_iter_env
     = (example_handler\<lparr>events := [example_event, example_event_bad_time]\<rparr>,
        [MarkMessage 42]) \<and>
   (\<exists>r. Unmarshal_rawEvent (Value example_message_bad_time) = Inr r \<and>
      r_Timestamp r = ''yesterday'' \<and> r_IngestedAt r = []) \<and>
   (\<exists>r. Unmarshal_rawEvent (Value example_message_bare) = Inr r \<and> r_Timestamp r = [])"
proof -
  let ?g = "\<lparr>r_Timestamp = ''2026-01-01T00:00:00Z'', r_Service = ''auth'', r_CustomerID = ''c1'',
          r_Endpoint = ''/x'', r_Method = ''GET'', r_StatusCode = 200, r_LatencyMs = 12,
          r_TraceID = ''0123456789abcdef0123456789abcdef'', r_Error = [],
          r_Environment = ''local'', r_SchemaVer = 1,
          r_IngestedAt = ''2026-01-01T00:00:01Z'', r_Attributes = []\<rparr>"
  let ?r = "rawEvent_zero\<lparr>r_Timestamp := ''yesterday'', r_Service := ''auth'',
                         r_CustomerID := ''c1'', r_StatusCode := 200\<rparr>"
  let ?b = "rawEvent_zero\<lparr>r_Service := ''auth''\<rparr>"
  note P = bad_timestamps_are_not_parse_failures
    [of example_iter_env example_message_poison example_handler]
  note G = bad_timestamps_are_not_parse_failures
    [of example_iter_env example_message example_handler]
  note B = bad_timestamps_are_not_parse_failures
    [of example_iter_env example_message_bad_time example_handler]
  note N = bad_timestamps_are_not_parse_failures
    [of example_iter_env example_message_bare example_handler]
  have n: "FlushEveryN (cfg example_handler) = 500"
    and e: "events example_handler = [example_event]"
    and og: "Offset example_message = 41"
    and ob: "Offset example_message_bad_time = 42"
    and vb: "Value example_message_bad_time =
      Some (JObj [(''timestamp'', JStr ''yesterday''), (''service'', JStr ''auth''),
                 (''customer_id'', JStr ''c1''), (''status_code'', JInt 200)])"
    and vn: "Value example_message_bare = Some (JObj [(''service'', JStr ''auth'')])"
    by (simp_all add: example_handler_def example_cfg_def example_message_def
        example_message_bad_time_def example_message_bare_def)
  have u0: "Unmarshal_rawEvent (Value example_message_poison) = Inl SyntaxError"
    by code_simp
  have c1: "parse_message example_iter_env example_message_poison = Inl SyntaxError"
    using P [THEN conjunct1, rule_format, of SyntaxError] u0 by simp
  from G [THEN conjunct2, THEN conjunct1, rule_format, OF example_unmarshal_message]
  obtain evg where pg: "parse_message example_iter_env example_message = Inr evg"
    and dg: "evg =
       \<lparr>wc_Timestamp = UnixMilli (case ie_parse example_iter_env (r_Timestamp ?g) of
                                        None \<Rightarrow> ie_now_ts example_iter_env | Some t \<Rightarrow> t),
        wc_Service = r_Service ?g, wc_CustomerID = r_CustomerID ?g,
        wc_Endpoint = r_Endpoint ?g, wc_Method = r_Method ?g,
        wc_StatusCode = r_StatusCode ?g, wc_LatencyMs = r_LatencyMs ?g,
        wc_TraceID = r_TraceID ?g, wc_Error = r_Error ?g,
        wc_Environment = r_Environment ?g, wc_SchemaVer = r_SchemaVer ?g,
        wc_IngestedAt = UnixMilli (case ie_parse example_iter_env (r_IngestedAt ?g) of
                                         None \<Rightarrow> ie_now_ing example_iter_env | Some t \<Rightarrow> t)\<rparr>"
    and mg: "on_message example_handler example_message example_iter_env =
       (if FlushEveryN (cfg example_handler) \<le> int (length (events example_handler)) + 1
        then (fst (call_flush (ie_flush example_iter_env)
                     (example_handler\<lparr>events := events example_handler @ [evg]\<rparr>)),
              MarkMessage (Offset example_message)
                # snd (call_flush (ie_flush example_iter_env)
                     (example_handler\<lparr>events := events example_handler @ [evg]\<rparr>)))
        else (example_handler\<lparr>events := events example_handler @ [evg]\<rparr>,
              [MarkMessage (Offset example_message)]))"
    by (elim exE conjE) (rule that)
  have vg: "\<lparr>wc_Timestamp = UnixMilli (case ie_parse example_iter_env (r_Timestamp ?g) of
                                        None \<Rightarrow> ie_now_ts example_iter_env | Some t \<Rightarrow> t),
        wc_Service = r_Service ?g, wc_CustomerID = r_CustomerID ?g,
        wc_Endpoint = r_Endpoint ?g, wc_Method = r_Method ?g,
        wc_StatusCode = r_StatusCode ?g, wc_LatencyMs = r_LatencyMs ?g,
        wc_TraceID = r_TraceID ?g, wc_Error = r_Error ?g,
        wc_Environment = r_Environment ?g, wc_SchemaVer = r_SchemaVer ?g,
        wc_IngestedAt = UnixMilli (case ie_parse example_iter_env (r_IngestedAt ?g) of
                                         None \<Rightarrow> ie_now_ing example_iter_env | Some t \<Rightarrow> t)\<rparr>
     = example_event"
    by code_simp
  have eg: "evg = example_event" using dg vg by (rule trans)
  have c2: "parse_message example_iter_env example_message = Inr example_event"
    using pg unfolding eg .
  have c3: "on_message example_handler example_message example_iter_env
     = (example_handler\<lparr>events := [example_event, example_event]\<rparr>, [MarkMessage 41])"
    using mg unfolding eg by (simp add: n e og)
  from B [THEN conjunct2, THEN conjunct1, rule_format, OF example_unmarshal_bad_time]
  obtain evb where pb: "parse_message example_iter_env example_message_bad_time = Inr evb"
    and db: "evb =
       \<lparr>wc_Timestamp = UnixMilli (case ie_parse example_iter_env (r_Timestamp ?r) of
                                        None \<Rightarrow> ie_now_ts example_iter_env | Some t \<Rightarrow> t),
        wc_Service = r_Service ?r, wc_CustomerID = r_CustomerID ?r,
        wc_Endpoint = r_Endpoint ?r, wc_Method = r_Method ?r,
        wc_StatusCode = r_StatusCode ?r, wc_LatencyMs = r_LatencyMs ?r,
        wc_TraceID = r_TraceID ?r, wc_Error = r_Error ?r,
        wc_Environment = r_Environment ?r, wc_SchemaVer = r_SchemaVer ?r,
        wc_IngestedAt = UnixMilli (case ie_parse example_iter_env (r_IngestedAt ?r) of
                                         None \<Rightarrow> ie_now_ing example_iter_env | Some t \<Rightarrow> t)\<rparr>"
    and tb: "ie_parse example_iter_env (r_Timestamp ?r) = None \<longrightarrow>
              wc_Timestamp evb = UnixMilli (ie_now_ts example_iter_env)"
    and ib: "ie_parse example_iter_env (r_IngestedAt ?r) = None \<longrightarrow>
              wc_IngestedAt evb = UnixMilli (ie_now_ing example_iter_env)"
    and mb: "on_message example_handler example_message_bad_time example_iter_env =
       (if FlushEveryN (cfg example_handler) \<le> int (length (events example_handler)) + 1
        then (fst (call_flush (ie_flush example_iter_env)
                     (example_handler\<lparr>events := events example_handler @ [evb]\<rparr>)),
              MarkMessage (Offset example_message_bad_time)
                # snd (call_flush (ie_flush example_iter_env)
                     (example_handler\<lparr>events := events example_handler @ [evb]\<rparr>)))
        else (example_handler\<lparr>events := events example_handler @ [evb]\<rparr>,
              [MarkMessage (Offset example_message_bad_time)]))"
    by (elim exE conjE) (rule that)
  have t1: "ie_parse example_iter_env (r_Timestamp ?r) = None"
    and t2: "ie_parse example_iter_env (r_IngestedAt ?r) = None"
    by code_simp+
  have n1: "UnixMilli (ie_now_ts example_iter_env) = 1767225607000"
    and n2: "UnixMilli (ie_now_ing example_iter_env) = 1767225607000"
    by code_simp+
  have stamps: "wc_Timestamp evb = 1767225607000" "wc_IngestedAt evb = 1767225607000"
    using tb [THEN mp, OF t1] ib [THEN mp, OF t2] by (simp_all add: n1 n2)
  have vb': "\<lparr>wc_Timestamp = UnixMilli (case ie_parse example_iter_env (r_Timestamp ?r) of
                                        None \<Rightarrow> ie_now_ts example_iter_env | Some t \<Rightarrow> t),
        wc_Service = r_Service ?r, wc_CustomerID = r_CustomerID ?r,
        wc_Endpoint = r_Endpoint ?r, wc_Method = r_Method ?r,
        wc_StatusCode = r_StatusCode ?r, wc_LatencyMs = r_LatencyMs ?r,
        wc_TraceID = r_TraceID ?r, wc_Error = r_Error ?r,
        wc_Environment = r_Environment ?r, wc_SchemaVer = r_SchemaVer ?r,
        wc_IngestedAt = UnixMilli (case ie_parse example_iter_env (r_IngestedAt ?r) of
                                         None \<Rightarrow> ie_now_ing example_iter_env | Some t \<Rightarrow> t)\<rparr>
     = example_event_bad_time"
    by code_simp
  have eb: "evb = example_event_bad_time" using db vb' by (rule trans)
  have c4: "parse_message example_iter_env example_message_bad_time = Inr example_event_bad_time"
    using pb unfolding eb .
  have c5: "on_message example_handler example_message_bad_time example_iter_env
     = (example_handler\<lparr>events := [example_event, example_event_bad_time]\<rparr>,
        [MarkMessage 42])"
    using mb unfolding eb by (simp add: n e ob)
  have miss: "r_IngestedAt ?r = []"
    using B [THEN conjunct2, THEN conjunct2, rule_format, OF conjI [OF vb example_unmarshal_bad_time],
             THEN conjunct2, THEN mp, OF example_no_ingested_at] .
  have c6: "\<exists>r. Unmarshal_rawEvent (Value example_message_bad_time) = Inr r \<and>
      r_Timestamp r = ''yesterday'' \<and> r_IngestedAt r = []"
    using example_unmarshal_bad_time miss by (intro exI [of _ ?r]) simp
  have missb: "r_Timestamp ?b = []"
    using N [THEN conjunct2, THEN conjunct2, rule_format, OF conjI [OF vn example_unmarshal_bare],
             THEN conjunct1, THEN mp, OF example_no_timestamp] .
  have c7: "\<exists>r. Unmarshal_rawEvent (Value example_message_bare) = Inr r \<and> r_Timestamp r = []"
    using example_unmarshal_bare missb by (intro exI [of _ ?b]) simp
  show ?thesis
    by (rule conjI [OF c1 conjI [OF c2 conjI [OF c3 conjI [OF c4 conjI [OF c5 conjI [OF c6 c7]]]]]])
qed

subsection \<open>When the loop flushes\<close>

lemma on_tick_called:
  "flush_called (snd (on_tick h w)) \<longleftrightarrow>
     (events h \<noteq> [] \<and> flush_interval (cfg h) \<le> Since (ie_clock w) (lastFlush h))"
  using call_flush_called [of "ie_flush w" h]
  by (auto simp: on_tick_def flush_called_def)

lemma on_message_called:
  "parse_message w msg = Inr ev \<Longrightarrow>
     flush_called (snd (on_message h msg w)) \<longleftrightarrow>
       FlushEveryN (cfg h) \<le> int (length (events h)) + 1"
  using call_flush_called [of "ie_flush w" "h\<lparr>events := events h @ [ev]\<rparr>"]
  by (simp add: on_message_parsed flush_called_def)

lemma on_message_poison_not_called:
  "parse_message w msg = Inl err \<Longrightarrow> \<not> flush_called (snd (on_message h msg w))"
  by (simp add: on_message_poison flush_called_def)

lemma write_rows_succeed: "\<forall>ev. wr ev = None \<Longrightarrow> write_rows wr evs = None"
  by (induction evs) simp_all

lemma flush_succeeds:
  assumes "calls_succeed e" and "events h \<noteq> []"
  shows "\<exists>effs. flush e h = (None, h\<lparr>events := [], lastFlush := fe_done e\<rparr>, effs)"
  using assms write_rows_succeed [of "fe_row e" "events h"]
  by (auto simp: calls_succeed_def flush_def writeParquet_def Let_def)

lemma call_flush_succeeds:
  assumes "calls_succeed e" and "events h \<noteq> []"
  shows "fst (call_flush e h) = h\<lparr>events := [], lastFlush := fe_done e\<rparr>"
  using flush_succeeds [OF assms] by (auto simp: call_flush_def)

lemma consume_loop_append:
  "consume_loop h (xs @ ys) =
     (case consume_loop h xs of
        (h1, o1, True) \<Rightarrow> (h1, o1, True)
      | (h1, o1, False) \<Rightarrow>
          (case consume_loop h1 ys of (h2, o2, r) \<Rightarrow> (h2, o1 @ o2, r)))"
proof (induction xs arbitrary: h)
  case Nil
  show ?case by (simp split: prod.splits)
next
  case (Cons x xs)
  show ?case
    by (cases x) (auto simp: Cons.IH split: prod.splits bool.splits)
qed

lemma loop_below_threshold:
  assumes "\<forall>i \<in> set ins. good_message i"
    and "int (length (events h)) + int (length ins) < FlushEveryN (cfg h)"
  shows "\<exists>h'. consume_loop h ins = (h', map (\<lambda>i. [MarkMessage (case i of Message m w \<Rightarrow> Offset m | _ \<Rightarrow> 0)]) ins, False) \<and>
           cfg h' = cfg h \<and> lastFlush h' = lastFlush h \<and>
           length (events h') = length (events h) + length ins"
  using assms
proof (induction ins arbitrary: h)
  case Nil
  then show ?case by simp
next
  case (Cons i ins)
  from Cons.prems(1) have gi: "good_message i" by simp
  then obtain m w where i: "i = Message m w" by (cases i) auto
  with gi obtain ev where ev: "parse_message w m = Inr ev" by auto
  let ?h1 = "h\<lparr>events := events h @ [ev]\<rparr>"
  from Cons.prems(2) have small: "\<not> FlushEveryN (cfg h) \<le> int (length (events h)) + 1" by simp
  with ev have om: "on_message h m w = (?h1, [MarkMessage (Offset m)])"
    by (simp add: on_message_parsed)
  have "\<forall>i \<in> set ins. good_message i" using Cons.prems(1) by simp
  moreover have "int (length (events ?h1)) + int (length ins) < FlushEveryN (cfg ?h1)"
    using Cons.prems(2) by simp
  ultimately obtain h' where
    h': "consume_loop ?h1 ins = (h', map (\<lambda>i. [MarkMessage (case i of Message m w \<Rightarrow> Offset m | _ \<Rightarrow> 0)]) ins, False)"
      "cfg h' = cfg ?h1" "lastFlush h' = lastFlush ?h1"
      "length (events h') = length (events ?h1) + length ins"
    using Cons.IH [of ?h1] by blast
  show ?case
    using i om h' by (intro exI [of _ h']) simp
qed


lemma split_last_two:
  assumes "length xs = Suc (Suc k)"
  shows "\<exists>pre a b. xs = pre @ [a, b] \<and> length pre = k"
proof -
  from assms have "xs \<noteq> []" by auto
  then obtain ys b where xs: "xs = ys @ [b]" by (meson rev_exhaust)
  with assms have "length ys = Suc k" by simp
  then have "ys \<noteq> []" by auto
  then obtain pre a where ys: "ys = pre @ [a]" by (meson rev_exhaust)
  with \<open>length ys = Suc k\<close> have "length pre = k" by simp
  with xs ys show ?thesis by simp
qed

lemma size_flush_scenario:
  assumes N: "FlushEveryN (cfg h) = int n" and n: "2 \<le> n" and e: "events h = []"
    and len: "length ins = n + 1" and good: "\<forall>i \<in> set ins. good_message i"
  shows "\<exists>h' outs. consume_loop h ins = (h', outs, False) \<and>
           map flush_called outs = replicate (n - 1) False @ [True, False] \<and>
           length (events h') = 1"
proof -
  from n len have "length ins = Suc (Suc (n - 1))" by simp
  then obtain pre a b where ins: "ins = pre @ [a, b]" and lpre: "length pre = n - 1"
    using split_last_two by blast
  from good ins have gpre: "\<forall>i \<in> set pre. good_message i"
    and ga: "good_message a" and gb: "good_message b" by simp_all
  have "int (length (events h)) + int (length pre) < FlushEveryN (cfg h)"
    using N n e lpre by simp
  with gpre obtain h1 where
    l1: "consume_loop h pre =
           (h1, map (\<lambda>i. [MarkMessage (case i of Message m w \<Rightarrow> Offset m | _ \<Rightarrow> 0)]) pre, False)"
    and c1: "cfg h1 = cfg h" and n1: "length (events h1) = length (events h) + length pre"
    using loop_below_threshold [of pre h] by blast
  from ga obtain ma wa where a: "a = Message ma wa" by (cases a) auto
  with ga obtain eva where eva: "parse_message wa ma = Inr eva"
    and sa: "calls_succeed (ie_flush wa)" by auto
  from gb obtain mb wb where b: "b = Message mb wb" by (cases b) auto
  with gb obtain evb where evb: "parse_message wb mb = Inr evb" by auto
  let ?h1' = "h1\<lparr>events := events h1 @ [eva]\<rparr>"
  define h2 where "h2 = fst (call_flush (ie_flush wa) ?h1')"
  define effa where "effa = MarkMessage (Offset ma) # snd (call_flush (ie_flush wa) ?h1')"
  define h3 where "h3 = h2\<lparr>events := events h2 @ [evb]\<rparr>"
  have h2: "events h2 = []" "cfg h2 = cfg h"
    using call_flush_succeeds [OF sa, of ?h1'] c1 by (simp_all add: h2_def)
  have full: "FlushEveryN (cfg h1) \<le> int (length (events h1)) + 1"
    using N n e lpre c1 n1 by simp
  have oa: "on_message h1 ma wa = (h2, effa)"
    using eva full by (simp add: on_message_parsed h2_def effa_def)
  have ca: "flush_called effa"
    using call_flush_called [of "ie_flush wa" ?h1'] by (simp add: flush_called_def effa_def)
  have "\<not> FlushEveryN (cfg h2) \<le> int (length (events h2)) + 1"
    using N n h2 by simp
  with evb have ob: "on_message h2 mb wb = (h3, [MarkMessage (Offset mb)])"
    by (simp add: on_message_parsed h3_def)
  have tail: "consume_loop h1 [a, b] = (h3, [effa, [MarkMessage (Offset mb)]], False)"
    unfolding a b by (simp add: oa ob)
  have all: "consume_loop h ins =
      (h3,
       map (\<lambda>i. [MarkMessage (case i of Message m w \<Rightarrow> Offset m | _ \<Rightarrow> 0)]) pre @
       [effa, [MarkMessage (Offset mb)]],
       False)"
    unfolding ins by (simp add: consume_loop_append l1 tail)
  have quiet: "map flush_called
      (map (\<lambda>i. [MarkMessage (case i of Message m w \<Rightarrow> Offset m | _ \<Rightarrow> 0)]) pre)
      = replicate (n - 1) False"
  proof -
    have "map flush_called
        (map (\<lambda>i. [MarkMessage (case i of Message m w \<Rightarrow> Offset m | _ \<Rightarrow> 0)]) pre)
        = map (\<lambda>i. False) pre"
      by (simp add: flush_called_def)
    then show ?thesis using lpre by (simp add: map_replicate_const)
  qed
  have qb: "\<not> flush_called [MarkMessage (Offset mb)]"
    by (simp add: flush_called_def)
  have l3: "length (events h3) = 1"
    using h2 by (simp add: h3_def)
  show ?thesis
    using all quiet ca qb l3
    by (intro exI [of _ h3]
          exI [of _ "map (\<lambda>i. [MarkMessage (case i of Message m w \<Rightarrow> Offset m | _ \<Rightarrow> 0)]) pre @
       [effa, [MarkMessage (Offset mb)]]"])
       simp
qed


text \<open>
  C1, as the code has it. The two triggers are checked at different places of the loop.
  An iteration that receives a message calls flush exactly when the message parses and
  the buffer, with the new event, holds at least \<open>N\<close> events; the elapsed time is not
  looked at there. An iteration that receives a tick calls flush exactly when the buffer
  is not empty and the time since the last successful flush is at least \<open>T\<close>; the size is
  not looked at there. So whenever flush is called, the specification's disjunction
  holds. With \<open>N = 500\<close>, an empty buffer and 501 messages that parse, in surroundings
  where the flush succeeds, flush is called once: after the 500th message and not after
  the 501st. After a successful flush of a handler with \<open>N \<ge> 1\<close> the buffer is empty, the
  timer is reset, the disjunction is false at every clock reading, and no tick calls
  flush.
\<close>

theorem flush_triggers:
  "(\<forall>ev. parse_message w msg = Inr ev \<longrightarrow>
      (flush_called (snd (on_message h msg w)) \<longleftrightarrow>
         FlushEveryN (cfg h) \<le> int (length (events h)) + 1)) \<and>
   (\<forall>err. parse_message w msg = Inl err \<longrightarrow> \<not> flush_called (snd (on_message h msg w))) \<and>
   (flush_called (snd (on_tick h w)) \<longleftrightarrow>
      (events h \<noteq> [] \<and> flush_interval (cfg h) \<le> Since (ie_clock w) (lastFlush h))) \<and>
   (flush_called (snd (on_message h msg w)) \<longrightarrow>
      spec_shouldFlush (FlushEveryN (cfg h)) (flush_interval (cfg h))
        (int (length (events h)) + 1) (Since (ie_clock w) (lastFlush h))) \<and>
   (flush_called (snd (on_tick h w)) \<longrightarrow>
      spec_shouldFlush (FlushEveryN (cfg h)) (flush_interval (cfg h))
        (int (length (events h))) (Since (ie_clock w) (lastFlush h))) \<and>
   (FlushEveryN (cfg h) = 500 \<and> 0 < flush_interval (cfg h) \<and> events h = [] \<and>
    length ins = 501 \<and> (\<forall>i \<in> set ins. good_message i) \<longrightarrow>
      (\<exists>h' outs. ConsumeClaim h ins = Inr (h', outs, False) \<and>
         map flush_called outs = replicate 499 False @ [True, False])) \<and>
   (\<forall>e h' effs c. flush e h = (None, h', effs) \<and> events h \<noteq> [] \<and> 1 \<le> FlushEveryN (cfg h) \<longrightarrow>
      events h' = [] \<and> lastFlush h' = fe_done e \<and>
      \<not> spec_shouldFlush (FlushEveryN (cfg h')) (flush_interval (cfg h'))
          (int (length (events h'))) (Since c (lastFlush h')) \<and>
      (\<forall>w'. \<not> flush_called (snd (on_tick h' w'))))"
proof -
  have p1: "\<forall>ev. parse_message w msg = Inr ev \<longrightarrow>
      (flush_called (snd (on_message h msg w)) \<longleftrightarrow>
         FlushEveryN (cfg h) \<le> int (length (events h)) + 1)"
    by (intro allI impI) (rule on_message_called)
  have p2: "\<forall>err. parse_message w msg = Inl err \<longrightarrow> \<not> flush_called (snd (on_message h msg w))"
    by (intro allI impI) (rule on_message_poison_not_called)
  have p3: "flush_called (snd (on_tick h w)) \<longleftrightarrow>
      (events h \<noteq> [] \<and> flush_interval (cfg h) \<le> Since (ie_clock w) (lastFlush h))"
    by (rule on_tick_called)
  have p4: "flush_called (snd (on_message h msg w)) \<longrightarrow>
      spec_shouldFlush (FlushEveryN (cfg h)) (flush_interval (cfg h))
        (int (length (events h)) + 1) (Since (ie_clock w) (lastFlush h))"
  proof (cases "parse_message w msg")
    case (Inl err)
    then show ?thesis using on_message_poison_not_called by blast
  next
    case (Inr ev)
    then show ?thesis by (simp add: on_message_called spec_shouldFlush_def)
  qed
  have p5: "flush_called (snd (on_tick h w)) \<longrightarrow>
      spec_shouldFlush (FlushEveryN (cfg h)) (flush_interval (cfg h))
        (int (length (events h))) (Since (ie_clock w) (lastFlush h))"
    by (auto simp: on_tick_called spec_shouldFlush_def)
  have p6: "FlushEveryN (cfg h) = 500 \<and> 0 < flush_interval (cfg h) \<and> events h = [] \<and>
    length ins = 501 \<and> (\<forall>i \<in> set ins. good_message i) \<longrightarrow>
      (\<exists>h' outs. ConsumeClaim h ins = Inr (h', outs, False) \<and>
         map flush_called outs = replicate 499 False @ [True, False])"
  proof
    assume a: "FlushEveryN (cfg h) = 500 \<and> 0 < flush_interval (cfg h) \<and> events h = [] \<and>
      length ins = 501 \<and> (\<forall>i \<in> set ins. good_message i)"
    then have "FlushEveryN (cfg h) = int 500" "2 \<le> (500::nat)" "events h = []"
      "length ins = 500 + 1" "\<forall>i \<in> set ins. good_message i"
      by simp_all
    then obtain h' outs where l: "consume_loop h ins = (h', outs, False)"
      and m: "map flush_called outs = replicate (500 - 1) False @ [True, False]"
      using size_flush_scenario [of h 500 ins] by blast
    from a l have "ConsumeClaim h ins = Inr (h', outs, False)"
      by (simp add: ConsumeClaim_def)
    with m show "\<exists>h' outs. ConsumeClaim h ins = Inr (h', outs, False) \<and>
         map flush_called outs = replicate 499 False @ [True, False]"
      by (intro exI [of _ h'] exI [of _ outs]) simp
  qed
  have p7: "\<forall>e h' effs c. flush e h = (None, h', effs) \<and> events h \<noteq> [] \<and> 1 \<le> FlushEveryN (cfg h) \<longrightarrow>
      events h' = [] \<and> lastFlush h' = fe_done e \<and>
      \<not> spec_shouldFlush (FlushEveryN (cfg h')) (flush_interval (cfg h'))
          (int (length (events h'))) (Since c (lastFlush h')) \<and>
      (\<forall>w'. \<not> flush_called (snd (on_tick h' w')))"
  proof (intro allI impI)
    fix e h' effs c
    assume a: "flush e h = (None, h', effs) \<and> events h \<noteq> [] \<and> 1 \<le> FlushEveryN (cfg h)"
    then have "h' = h\<lparr>events := [], lastFlush := fe_done e\<rparr>"
      using flush_ok_nonempty [of e h h' effs] by simp
    with a show "events h' = [] \<and> lastFlush h' = fe_done e \<and>
      \<not> spec_shouldFlush (FlushEveryN (cfg h')) (flush_interval (cfg h'))
          (int (length (events h'))) (Since c (lastFlush h')) \<and>
      (\<forall>w'. \<not> flush_called (snd (on_tick h' w')))"
      by (simp add: spec_shouldFlush_def on_tick_called)
  qed
  show ?thesis
    by (rule conjI [OF p1 conjI [OF p2 conjI [OF p3 conjI [OF p4 conjI [OF p5 conjI [OF p6 p7]]]]]])
qed


text \<open>
  C1 as stated fails in two places. A message that arrives five or more seconds after
  the last flush, into a buffer below the threshold, satisfies the disjunction (buffer not
  empty, time elapsed), yet the iteration calls no flush: that waits for the next tick.
  And with \<open>N = 0\<close> the disjunction is true right after a successful flush.
\<close>

theorem flush_condition_counterexample:
  "spec_shouldFlush (FlushEveryN (cfg example_handler)) (flush_interval (cfg example_handler))
     (int (length (events (fst (on_message example_handler example_message example_iter_env)))))
     (Since (ie_clock example_iter_env) (lastFlush example_handler)) \<and>
   \<not> flush_called (snd (on_message example_handler example_message example_iter_env)) \<and>
   fst (flush example_flush_env example_handler_n0) = None \<and>
   spec_shouldFlush
     (FlushEveryN (cfg (fst (snd (flush example_flush_env example_handler_n0)))))
     (flush_interval (cfg (fst (snd (flush example_flush_env example_handler_n0)))))
     (int (length (events (fst (snd (flush example_flush_env example_handler_n0))))))
     (Since (fe_done example_flush_env)
        (lastFlush (fst (snd (flush example_flush_env example_handler_n0)))))"
  by code_simp

lemma example_calls_succeed: "calls_succeed example_flush_env"
  by (simp add: calls_succeed_def example_flush_env_def)

lemma example_good_message: "good_message (Message example_message example_iter_env)"
  using example_parse_message example_calls_succeed
  by (simp add: example_iter_env_def)

theorem flush_triggers_witness:
  "flush_called (snd (on_message example_handler_n1 example_message example_iter_env)) \<and>
   \<not> flush_called (snd (on_message example_handler example_message_poison example_iter_env)) \<and>
   flush_called (snd (on_tick example_handler example_iter_env)) \<and>
   spec_shouldFlush 1 5000000000 2 7000000000 \<and>
   spec_shouldFlush 500 5000000000 1 7000000000 \<and>
   (\<exists>h' outs.
      ConsumeClaim example_handler_empty (replicate 501 (Message example_message example_iter_env))
        = Inr (h', outs, False) \<and>
      map flush_called outs = replicate 499 False @ [True, False]) \<and>
   events (fst (snd (flush example_flush_env example_handler_n1))) = [] \<and>
   \<not> spec_shouldFlush 1 5000000000 0 0"
proof -
  note A = flush_triggers [of example_iter_env example_message example_handler_n1]
  note B = flush_triggers [of example_iter_env example_message_poison example_handler
     "replicate 501 (Message example_message example_iter_env)"]
  note C = flush_triggers [of example_iter_env example_message example_handler_empty
     "replicate 501 (Message example_message example_iter_env)"]
  have n1: "FlushEveryN (cfg example_handler_n1) = 1"
    and i1: "flush_interval (cfg example_handler_n1) = 5000000000"
    and l1: "int (length (events example_handler_n1)) = 1"
    and s1: "Since (ie_clock example_iter_env) (lastFlush example_handler_n1) = 7000000000"
    and n2: "FlushEveryN (cfg example_handler) = 500"
    and i2: "flush_interval (cfg example_handler) = 5000000000"
    and l2: "int (length (events example_handler)) = 1"
    and e2: "events example_handler \<noteq> []"
    and s2: "Since (ie_clock example_iter_env) (lastFlush example_handler) = 7000000000"
    by code_simp+
  have c1: "flush_called (snd (on_message example_handler_n1 example_message example_iter_env))"
    using A [THEN conjunct1, rule_format, OF example_parse_message] by (simp add: n1 l1)
  have c2: "\<not> flush_called (snd (on_message example_handler example_message_poison example_iter_env))"
    using B [THEN conjunct2, THEN conjunct1, rule_format, OF example_parse_poison] .
  have c3: "flush_called (snd (on_tick example_handler example_iter_env))"
    using B [THEN conjunct2, THEN conjunct2, THEN conjunct1] by (simp add: e2 i2 s2)
  have c4: "spec_shouldFlush 1 5000000000 2 7000000000"
    using A [THEN conjunct2, THEN conjunct2, THEN conjunct2, THEN conjunct1, rule_format, OF c1]
    by (simp add: n1 i1 l1 s1)
  have c5: "spec_shouldFlush 500 5000000000 1 7000000000"
    using B [THEN conjunct2, THEN conjunct2, THEN conjunct2, THEN conjunct2, THEN conjunct1,
             rule_format, OF c3]
    by (simp add: n2 i2 l2 s2)
  have h0: "FlushEveryN (cfg example_handler_empty) = 500 \<and>
      0 < flush_interval (cfg example_handler_empty) \<and> events example_handler_empty = [] \<and>
      length (replicate 501 (Message example_message example_iter_env)) = 501 \<and>
      (\<forall>i \<in> set (replicate 501 (Message example_message example_iter_env)). good_message i)"
    using example_good_message
    by (simp add: example_handler_empty_def example_cfg_def flush_interval_def wrap64_def)
  have c6: "\<exists>h' outs.
      ConsumeClaim example_handler_empty (replicate 501 (Message example_message example_iter_env))
        = Inr (h', outs, False) \<and>
      map flush_called outs = replicate 499 False @ [True, False]"
    using C [THEN conjunct2, THEN conjunct2, THEN conjunct2, THEN conjunct2, THEN conjunct2,
             THEN conjunct1, THEN mp, OF h0] .
  have f: "flush example_flush_env example_handler_n1 =
      (None, fst (snd (flush example_flush_env example_handler_n1)),
       snd (snd (flush example_flush_env example_handler_n1))) \<and>
      events example_handler_n1 \<noteq> [] \<and> 1 \<le> FlushEveryN (cfg example_handler_n1)"
  proof (intro conjI)
    show "flush example_flush_env example_handler_n1 =
      (None, fst (snd (flush example_flush_env example_handler_n1)),
       snd (snd (flush example_flush_env example_handler_n1)))"
      by (simp add: example_flush_ok)
    show "events example_handler_n1 \<noteq> []" and "1 \<le> FlushEveryN (cfg example_handler_n1)"
      by (simp_all add: example_handler_n1_def)
  qed
  note D = A [THEN conjunct2, THEN conjunct2, THEN conjunct2, THEN conjunct2, THEN conjunct2,
              THEN conjunct2, rule_format, OF f, of 1767225607000000000]
  have c7: "events (fst (snd (flush example_flush_env example_handler_n1))) = []"
    using D by (rule conjunct1)
  have c8: "\<not> spec_shouldFlush 1 5000000000 0 0"
  proof -
    have hp: "fst (snd (flush example_flush_env example_handler_n1)) =
        example_handler_n1\<lparr>events := [], lastFlush := 1767225607000000000\<rparr>"
      by (simp add: example_flush_ok)
    show ?thesis
      using D [THEN conjunct2, THEN conjunct2, THEN conjunct1] unfolding hp
      by (simp add: example_handler_n1_def example_cfg_def flush_interval_def
          wrap64_def Since_def)
  qed
  show ?thesis
    by (rule conjI [OF c1 conjI [OF c2 conjI [OF c3 conjI [OF c4 conjI [OF c5 conjI [OF c6
          conjI [OF c7 c8]]]]]]])
qed

subsection \<open>Object keys\<close>

lemma hexdigit_table:
  "\<forall>n \<in> set [0 ..< 16]. is_hex (hexdigit n)"
  "\<forall>n \<in> set [0 ..< 10]. is_digit (hexdigit n) \<and> of_char (hexdigit n) - 48 = n"
  by code_simp+

lemma hexdigit_is_hex: "n < 16 \<Longrightarrow> is_hex (hexdigit n)"
  using hexdigit_table(1) by simp

lemma hexdigit_is_digit: "n < 10 \<Longrightarrow> is_digit (hexdigit n)"
  using hexdigit_table(2) by simp

lemma hexdigit_value: "n < 10 \<Longrightarrow> of_char (hexdigit n) - 48 = n"
  using hexdigit_table(2) by simp

lemma hexdigit_inj: "m < 16 \<Longrightarrow> n < 16 \<Longrightarrow> hexdigit m = hexdigit n \<Longrightarrow> m = n"
proof -
  assume m: "m < 16" and n: "n < 16" and eq: "hexdigit m = hexdigit n"
  have d: "distinct ''0123456789abcdef''" by simp
  have l: "length ''0123456789abcdef'' = 16" by simp
  from eq have "''0123456789abcdef'' ! m = ''0123456789abcdef'' ! n"
    by (simp only: hexdigit_def)
  with d m n l show "m = n"
    by (simp only: nth_eq_iff_index_eq)
qed

lemma length_EncodeToString: "length (EncodeToString bs) = 2 * length bs"
  by (induction bs) (simp_all add: EncodeToString_def)

lemma hex_EncodeToString: "\<forall>ch \<in> set (EncodeToString bs). is_hex ch"
proof (induction bs)
  case Nil
  show ?case by (simp add: EncodeToString_def)
next
  case (Cons b bs)
  have "unat b < 256" using unsigned_less [of b] by simp
  then have "unat b div 16 < 16" "unat b mod 16 < 16" by simp_all
  then have "is_hex (hexdigit (unat b div 16))" "is_hex (hexdigit (unat b mod 16))"
    by (simp_all add: hexdigit_is_hex)
  with Cons show ?case by (simp add: EncodeToString_def)
qed

lemma EncodeToString_inj: "EncodeToString a = EncodeToString b \<Longrightarrow> a = b"
proof (induction a arbitrary: b)
  case Nil
  then show ?case by (cases b) (simp_all add: EncodeToString_def)
next
  case (Cons x xs)
  then obtain y ys where b: "b = y # ys" by (cases b) (simp_all add: EncodeToString_def)
  from Cons.prems b have hi: "hexdigit (unat x div 16) = hexdigit (unat y div 16)"
    and lo: "hexdigit (unat x mod 16) = hexdigit (unat y mod 16)"
    and rest: "EncodeToString xs = EncodeToString ys"
    by (simp_all add: EncodeToString_def)
  have "unat x < 256" "unat y < 256" using unsigned_less [of x] unsigned_less [of y] by simp_all
  then have bx: "unat x div 16 < 16" and bx2: "unat y div 16 < 16" by simp_all
  have h: "unat x div 16 = unat y div 16" by (rule hexdigit_inj [OF bx bx2 hi])
  have mx: "unat x mod 16 < 16" and my: "unat y mod 16 < 16" by simp_all
  have l: "unat x mod 16 = unat y mod 16" by (rule hexdigit_inj [OF mx my lo])
  from h l have "unat x = unat y" by (metis div_mult_mod_eq)
  then have "x = y" by (simp add: word_unat_eq_iff)
  with Cons.IH [OF rest] b show ?case by simp
qed

lemma length_rand_Read: "length (rand_Read n src) = n"
  by (simp add: rand_Read_def)

lemma length_randomHex: "length (randomHex n src) = 2 * n"
  by (simp add: randomHex_def length_EncodeToString length_rand_Read)

lemma hex_randomHex: "\<forall>ch \<in> set (randomHex n src). is_hex ch"
  by (simp add: randomHex_def hex_EncodeToString)

lemma randomHex_eq_iff: "randomHex n s1 = randomHex n s2 \<longleftrightarrow> rand_Read n s1 = rand_Read n s2"
  using EncodeToString_inj by (auto simp: randomHex_def)

lemma digits_decimal: "\<forall>ch \<in> set (decimal n). is_digit ch"
proof (induction n rule: decimal.induct)
  case (1 n)
  show ?case
  proof (cases "n < 10")
    case True
    then show ?thesis by (subst decimal.simps) (simp add: hexdigit_is_digit)
  next
    case False
    with 1 show ?thesis by (subst decimal.simps) (simp add: hexdigit_is_digit)
  qed
qed

lemma length_decimal: "0 < w \<Longrightarrow> n < 10 ^ w \<Longrightarrow> length (decimal n) \<le> w"
proof (induction w arbitrary: n)
  case 0
  then show ?case by simp
next
  case (Suc w)
  show ?case
  proof (cases "n < 10")
    case True
    then show ?thesis by (subst decimal.simps) simp
  next
    case False
    then have w: "0 < w" using Suc.prems(2) by (cases w) simp_all
    have "n div 10 < 10 ^ w" using Suc.prems(2) by (simp add: less_mult_imp_div_less mult.commute)
    with Suc.IH [OF w] have "length (decimal (n div 10)) \<le> w" by simp
    with False show ?thesis by (subst decimal.simps) simp
  qed
qed

lemma decimal_value_snoc: "decimal_value (s @ [ch]) = 10 * decimal_value s + (of_char ch - 48)"
  by (simp add: decimal_value_def)

lemma decimal_value_decimal: "decimal_value (decimal n) = n"
proof (induction n rule: decimal.induct)
  case (1 n)
  show ?case
  proof (cases "n < 10")
    case True
    then show ?thesis
      by (subst decimal.simps) (simp add: decimal_value_def hexdigit_value)
  next
    case False
    with 1 have "decimal_value (decimal (n div 10)) = n div 10" by simp
    with False show ?thesis
      by (subst decimal.simps) (simp add: decimal_value_snoc hexdigit_value)
  qed
qed

lemma decimal_value_zero_pad: "decimal_value (zero_pad w s) = decimal_value s"
proof -
  have "foldl (\<lambda>a ch. 10 * a + (of_char ch - 48)) 0 (replicate k (CHR ''0'')) = (0::nat)" for k
    by (induction k) simp_all
  then show ?thesis by (simp add: decimal_value_def zero_pad_def)
qed

lemma fmt_0d_digits:
  assumes "0 < w" and "0 \<le> n" and "n < 10 ^ w"
  shows "length (fmt_0d w n) = w \<and> (\<forall>ch \<in> set (fmt_0d w n). is_digit ch) \<and>
         int (decimal_value (fmt_0d w n)) = n"
proof -
  from assms have "nat n < 10 ^ w" by (simp add: nat_less_iff)
  with assms(1) have "length (decimal (nat n)) \<le> w" by (rule length_decimal)
  moreover have "is_digit (CHR ''0'')" by (simp add: is_digit_def)
  ultimately show ?thesis
    using assms(2) digits_decimal [of "nat n"]
    by (auto simp: fmt_0d_def zero_pad_def decimal_value_zero_pad [unfolded zero_pad_def]
        decimal_value_decimal)
qed


lemma object_key_shape:
  assumes "civil_ok c"
  shows "\<exists>Y M D H. object_key c sfx =
           ''telemetry/parquet/date='' @ Y @ ''-'' @ M @ ''-'' @ D @ ''/hour='' @ H
             @ ''/batch-'' @ sfx @ ''.parquet'' \<and>
         length Y = 4 \<and> length M = 2 \<and> length D = 2 \<and> length H = 2 \<and>
         (\<forall>ch \<in> set (Y @ M @ D @ H). is_digit ch) \<and>
         int (decimal_value Y) = Year c \<and> int (decimal_value M) = Month c \<and>
         int (decimal_value D) = Day c \<and> int (decimal_value H) = Hour c"
proof -
  from assms have y: "0 \<le> Year c" "Year c < 10 ^ 4" and m: "0 \<le> Month c" "Month c < 10 ^ 2"
    and d: "0 \<le> Day c" "Day c < 10 ^ 2" and h: "0 \<le> Hour c" "Hour c < 10 ^ 2"
    by (simp_all add: civil_ok_def)
  note Y = fmt_0d_digits [OF _ y, simplified]
  note M = fmt_0d_digits [OF _ m, simplified]
  note D = fmt_0d_digits [OF _ d, simplified]
  note H = fmt_0d_digits [OF _ h, simplified]
  show ?thesis
    using Y M D H
    by (intro exI [of _ "fmt_0d 4 (Year c)"] exI [of _ "fmt_0d 2 (Month c)"]
          exI [of _ "fmt_0d 2 (Day c)"] exI [of _ "fmt_0d 2 (Hour c)"])
       (auto simp: object_key_def)
qed

lemma object_key_same_hour:
  "object_key c (randomHex 8 s1) = object_key c (randomHex 8 s2) \<longleftrightarrow>
     rand_Read 8 s1 = rand_Read 8 s2"
  by (simp add: object_key_def randomHex_eq_iff)

lemma object_key_suffix:
  assumes "object_key c1 a = object_key c2 b" and "length a = length b"
  shows "a = b"
proof -
  have k: "object_key c x =
      (''telemetry/parquet/date='' @ fmt_0d 4 (Year c) @ ''-'' @ fmt_0d 2 (Month c) @ ''-''
         @ fmt_0d 2 (Day c) @ ''/hour='' @ fmt_0d 2 (Hour c) @ ''/batch-'') @ (x @ ''.parquet'')"
    for c x
    by (simp add: object_key_def)
  have l: "length (a @ ''.parquet'') = length (b @ ''.parquet'')"
    using assms(2) by simp
  from assms(1) have eq: "(''telemetry/parquet/date='' @ fmt_0d 4 (Year c1) @ ''-'' @ fmt_0d 2 (Month c1) @ ''-''
         @ fmt_0d 2 (Day c1) @ ''/hour='' @ fmt_0d 2 (Hour c1) @ ''/batch-'') @ (a @ ''.parquet'')
      = (''telemetry/parquet/date='' @ fmt_0d 4 (Year c2) @ ''-'' @ fmt_0d 2 (Month c2) @ ''-''
         @ fmt_0d 2 (Day c2) @ ''/hour='' @ fmt_0d 2 (Hour c2) @ ''/batch-'') @ (b @ ''.parquet'')"
    unfolding k .
  have "a @ ''.parquet'' = b @ ''.parquet''"
    by (rule append_eq_append_conv [OF disjI2 [OF l], THEN iffD1, OF eq, THEN conjunct2])
  then show ?thesis by simp
qed

lemma object_key_fresh:
  assumes "rand_Read 8 s1 \<noteq> rand_Read 8 s2"
  shows "object_key c1 (randomHex 8 s1) \<noteq> object_key c2 (randomHex 8 s2)"
proof
  assume "object_key c1 (randomHex 8 s1) = object_key c2 (randomHex 8 s2)"
  then have "randomHex 8 s1 = randomHex 8 s2"
    by (rule object_key_suffix) (simp add: length_randomHex)
  with assms show False by (simp add: randomHex_eq_iff)
qed

lemma flush_put_key:
  assumes "flush e h = (None, h', effs)" and "PutObject b k evs \<in> set effs"
  shows "k = object_key (fe_now e) (randomHex 8 (fe_rand_key e)) \<and> events h \<noteq> []"
proof -
  have ne: "events h \<noteq> []"
    using assms by (auto simp: flush_def)
  from flush_ok_nonempty [OF assms(1) ne] assms(2) show ?thesis
    using ne by auto
qed

text \<open>
  C9. A successful flush stores exactly one object, holding the whole batch, under the
  key \<^verbatim>\<open>telemetry/parquet/date=YYYY-MM-DD/hour=HH/batch-<suffix>.parquet\<close>: for calendar
  fields in their ranges and a year of at most four digits, the date and hour parts are
  the zero-padded decimal numerals of the UTC year, month, day and hour, and the suffix
  is 16 lower-case hexadecimal characters, the encoding of the 8 bytes read from the
  random source. A flush is what the loop triggers: on a tick only when the buffer is
  not empty, on a message with the buffer the new event has just been appended to; the
  guard at the head of \<^verbatim>\<open>flush\<close> that returns on an empty buffer is not reached from the
  loop. The suffix is fresh when the 8 bytes read differ from those of another flush;
  then the two keys differ, whatever the two dates and hours are, so no key is used
  twice. Within one hour the suffix is all that tells two keys apart.
\<close>

theorem flush_key_convention:
  "(\<forall>h' effs. flush e h = (None, h', effs) \<and> events h \<noteq> [] \<longrightarrow>
      length (filter is_put effs) = 1 \<and>
      hd effs = PutObject (MinIOBucket (cfg h))
                  (object_key (fe_now e) (randomHex 8 (fe_rand_key e))) (events h)) \<and>
   (flush_called (snd (on_tick h w)) \<longrightarrow>
      events h \<noteq> [] \<and> on_tick h w = call_flush (ie_flush w) h) \<and>
   (flush_called (snd (on_message h msg w)) \<longrightarrow>
      (\<exists>ev. parse_message w msg = Inr ev \<and>
         on_message h msg w =
           (fst (call_flush (ie_flush w) (h\<lparr>events := events h @ [ev]\<rparr>)),
            MarkMessage (Offset msg)
              # snd (call_flush (ie_flush w) (h\<lparr>events := events h @ [ev]\<rparr>))))) \<and>
   (civil_ok c \<longrightarrow>
      (\<exists>Y M D H. object_key c sfx =
           ''telemetry/parquet/date='' @ Y @ ''-'' @ M @ ''-'' @ D @ ''/hour='' @ H
             @ ''/batch-'' @ sfx @ ''.parquet'' \<and>
         length Y = 4 \<and> length M = 2 \<and> length D = 2 \<and> length H = 2 \<and>
         (\<forall>ch \<in> set (Y @ M @ D @ H). is_digit ch) \<and>
         int (decimal_value Y) = Year c \<and> int (decimal_value M) = Month c \<and>
         int (decimal_value D) = Day c \<and> int (decimal_value H) = Hour c)) \<and>
   length (randomHex 8 src) = 16 \<and>
   (\<forall>ch \<in> set (randomHex 8 src). is_hex ch) \<and>
   (\<forall>e2 h2 h1' h2' effs1 effs2 b1 b2 k1 k2 evs1 evs2.
      flush e h = (None, h1', effs1) \<and> PutObject b1 k1 evs1 \<in> set effs1 \<and>
      flush e2 h2 = (None, h2', effs2) \<and> PutObject b2 k2 evs2 \<in> set effs2 \<and>
      rand_Read 8 (fe_rand_key e) \<noteq> rand_Read 8 (fe_rand_key e2) \<longrightarrow> k1 \<noteq> k2) \<and>
   (object_key c (randomHex 8 s1) = object_key c (randomHex 8 s2) \<longleftrightarrow>
      rand_Read 8 s1 = rand_Read 8 s2)"
proof -
  have p1: "\<forall>h' effs. flush e h = (None, h', effs) \<and> events h \<noteq> [] \<longrightarrow>
      length (filter is_put effs) = 1 \<and>
      hd effs = PutObject (MinIOBucket (cfg h))
                  (object_key (fe_now e) (randomHex 8 (fe_rand_key e))) (events h)"
  proof (intro allI impI)
    fix h' effs
    assume "flush e h = (None, h', effs) \<and> events h \<noteq> []"
    then obtain sz where "effs =
        [PutObject (MinIOBucket (cfg h)) (object_key (fe_now e) (randomHex 8 (fe_rand_key e))) (events h),
         LogFlushed (length (events h)) (MinIOBucket (cfg h)) (object_key (fe_now e) (randomHex 8 (fe_rand_key e))) sz,
         RemoveFile (fe_tmpdir e) (''tigerscope-'' @ randomHex 6 (fe_rand_tmp e) @ ''.parquet'')]"
      using flush_ok_nonempty [of e h h' effs] by auto
    then show "length (filter is_put effs) = 1 \<and>
      hd effs = PutObject (MinIOBucket (cfg h))
                  (object_key (fe_now e) (randomHex 8 (fe_rand_key e))) (events h)"
      by simp
  qed
  have t: "flush_called (snd (on_tick h w)) \<longrightarrow>
      events h \<noteq> [] \<and> on_tick h w = call_flush (ie_flush w) h"
    by (simp add: on_tick_called) (simp add: on_tick_def)
  have m: "flush_called (snd (on_message h msg w)) \<longrightarrow>
      (\<exists>ev. parse_message w msg = Inr ev \<and>
         on_message h msg w =
           (fst (call_flush (ie_flush w) (h\<lparr>events := events h @ [ev]\<rparr>)),
            MarkMessage (Offset msg)
              # snd (call_flush (ie_flush w) (h\<lparr>events := events h @ [ev]\<rparr>))))"
  proof
    assume c: "flush_called (snd (on_message h msg w))"
    show "\<exists>ev. parse_message w msg = Inr ev \<and>
         on_message h msg w =
           (fst (call_flush (ie_flush w) (h\<lparr>events := events h @ [ev]\<rparr>)),
            MarkMessage (Offset msg)
              # snd (call_flush (ie_flush w) (h\<lparr>events := events h @ [ev]\<rparr>)))"
    proof (cases "parse_message w msg")
      case (Inl err)
      from on_message_poison_not_called [OF Inl] c show ?thesis by simp
    next
      case (Inr ev)
      from on_message_called [OF Inr] c
      have "FlushEveryN (cfg h) \<le> int (length (events h)) + 1" by simp
      with on_message_parsed [OF Inr, of h] Inr show ?thesis
        by (intro exI [of _ ev]) simp
    qed
  qed
  have p2: "civil_ok c \<longrightarrow>
      (\<exists>Y M D H. object_key c sfx =
           ''telemetry/parquet/date='' @ Y @ ''-'' @ M @ ''-'' @ D @ ''/hour='' @ H
             @ ''/batch-'' @ sfx @ ''.parquet'' \<and>
         length Y = 4 \<and> length M = 2 \<and> length D = 2 \<and> length H = 2 \<and>
         (\<forall>ch \<in> set (Y @ M @ D @ H). is_digit ch) \<and>
         int (decimal_value Y) = Year c \<and> int (decimal_value M) = Month c \<and>
         int (decimal_value D) = Day c \<and> int (decimal_value H) = Hour c)"
    by (intro impI) (rule object_key_shape)
  have p3: "length (randomHex 8 src) = 16"
    by (simp add: length_randomHex)
  have p5: "\<forall>e2 h2 h1' h2' effs1 effs2 b1 b2 k1 k2 evs1 evs2.
      flush e h = (None, h1', effs1) \<and> PutObject b1 k1 evs1 \<in> set effs1 \<and>
      flush e2 h2 = (None, h2', effs2) \<and> PutObject b2 k2 evs2 \<in> set effs2 \<and>
      rand_Read 8 (fe_rand_key e) \<noteq> rand_Read 8 (fe_rand_key e2) \<longrightarrow> k1 \<noteq> k2"
  proof (intro allI impI, elim conjE)
    fix e2 h2 h1' h2' effs1 effs2 b1 b2 k1 k2 evs1 evs2
    assume f1: "flush e h = (None, h1', effs1)" and u1: "PutObject b1 k1 evs1 \<in> set effs1"
      and f2: "flush e2 h2 = (None, h2', effs2)" and u2: "PutObject b2 k2 evs2 \<in> set effs2"
      and r: "rand_Read 8 (fe_rand_key e) \<noteq> rand_Read 8 (fe_rand_key e2)"
    have k1: "k1 = object_key (fe_now e) (randomHex 8 (fe_rand_key e))"
      using flush_put_key [OF f1 u1] by simp
    have k2: "k2 = object_key (fe_now e2) (randomHex 8 (fe_rand_key e2))"
      using flush_put_key [OF f2 u2] by simp
    show "k1 \<noteq> k2" unfolding k1 k2 by (rule object_key_fresh [OF r])
  qed
  show ?thesis
    by (rule conjI [OF p1 conjI [OF t conjI [OF m conjI [OF p2 conjI [OF p3 conjI [OF hex_randomHex
          conjI [OF p5 object_key_same_hour]]]]]]])
qed

theorem flush_key_convention_witness:
  "length (filter is_put (snd (snd (flush example_flush_env example_handler)))) = 1 \<and>
   hd (snd (snd (flush example_flush_env example_handler))) =
     PutObject ''tigerscope''
       (object_key (fe_now example_flush_env) (randomHex 8 (fe_rand_key example_flush_env)))
       [example_event] \<and>
   events example_handler \<noteq> [] \<and>
   on_tick example_handler example_iter_env = call_flush example_flush_env example_handler \<and>
   (\<exists>ev. parse_message example_iter_env example_message = Inr ev \<and>
      on_message example_handler_n1 example_message example_iter_env =
        (fst (call_flush example_flush_env (example_handler_n1\<lparr>events := [example_event, ev]\<rparr>)),
         MarkMessage 41
           # snd (call_flush example_flush_env (example_handler_n1\<lparr>events := [example_event, ev]\<rparr>)))) \<and>
   (\<exists>Y M D H. object_key \<lparr>Year = 2026, Month = 1, Day = 1, Hour = 0\<rparr> ''0123456789abcdef'' =
        ''telemetry/parquet/date='' @ Y @ ''-'' @ M @ ''-'' @ D @ ''/hour='' @ H
          @ ''/batch-'' @ ''0123456789abcdef'' @ ''.parquet'' \<and>
      length Y = 4 \<and> length M = 2 \<and> length D = 2 \<and> length H = 2 \<and>
      list_all is_digit (Y @ M @ D @ H) \<and>
      int (decimal_value Y) = 2026 \<and> int (decimal_value M) = 1 \<and>
      int (decimal_value D) = 1 \<and> int (decimal_value H) = 0) \<and>
   length (randomHex 8 (fe_rand_key example_flush_env)) = 16 \<and>
   list_all is_hex (randomHex 8 (fe_rand_key example_flush_env)) \<and>
   PutObject ''tigerscope''
       ''telemetry/parquet/date=2026-01-01/hour=00/batch-0123456789abcdef.parquet''
       [example_event]
     \<in> set (snd (snd (flush example_flush_env example_handler))) \<and>
   PutObject ''tigerscope''
       ''telemetry/parquet/date=2026-01-01/hour=00/batch-fedcba9876543210.parquet''
       [example_event, example_event]
     \<in> set (snd (snd (flush example_flush_env_later example_handler_two))) \<and>
   ''telemetry/parquet/date=2026-01-01/hour=00/batch-0123456789abcdef.parquet''
     \<noteq> ''telemetry/parquet/date=2026-01-01/hour=00/batch-fedcba9876543210.parquet'' \<and>
   object_key \<lparr>Year = 2026, Month = 1, Day = 1, Hour = 0\<rparr>
       (randomHex 8 (fe_rand_key example_flush_env))
     \<noteq> object_key \<lparr>Year = 2026, Month = 1, Day = 1, Hour = 0\<rparr>
       (randomHex 8 (fe_rand_key example_flush_env_later))"
proof -
  let ?c = "\<lparr>Year = 2026, Month = 1, Day = 1, Hour = 0\<rparr>"
  let ?k1 = "''telemetry/parquet/date=2026-01-01/hour=00/batch-0123456789abcdef.parquet''"
  let ?k2 = "''telemetry/parquet/date=2026-01-01/hour=00/batch-fedcba9876543210.parquet''"
  note T = flush_key_convention [where e = example_flush_env and h = example_handler
      and w = example_iter_env and msg = example_message and c = ?c
      and sfx = "''0123456789abcdef''" and src = "fe_rand_key example_flush_env"
      and ?s1.0 = "fe_rand_key example_flush_env"
      and ?s2.0 = "fe_rand_key example_flush_env_later"]
  note M = flush_key_convention [where e = example_flush_env and h = example_handler_n1
      and w = example_iter_env and msg = example_message and c = ?c
      and sfx = "''0123456789abcdef''" and src = "fe_rand_key example_flush_env"
      and ?s1.0 = "fe_rand_key example_flush_env"
      and ?s2.0 = "fe_rand_key example_flush_env_later"]
  have f: "flush example_flush_env example_handler =
      (None, fst (snd (flush example_flush_env example_handler)),
       snd (snd (flush example_flush_env example_handler))) \<and> events example_handler \<noteq> []"
    by code_simp
  have f1: "flush example_flush_env example_handler =
      (None, fst (snd (flush example_flush_env example_handler)),
       snd (snd (flush example_flush_env example_handler)))"
    using f by (rule conjunct1)
  have f2: "flush example_flush_env_later example_handler_two =
      (None, fst (snd (flush example_flush_env_later example_handler_two)),
       snd (snd (flush example_flush_env_later example_handler_two)))"
    by code_simp
  have b: "MinIOBucket (cfg example_handler) = ''tigerscope''"
    and e: "events example_handler = [example_event]"
    and e1: "events example_handler_n1 = [example_event]"
    and fl: "ie_flush example_iter_env = example_flush_env"
    and og: "Offset example_message = 41"
    by (simp_all add: example_handler_def example_handler_n1_def example_cfg_def
        example_iter_env_def example_message_def)
  have c12: "length (filter is_put (snd (snd (flush example_flush_env example_handler)))) = 1 \<and>
     hd (snd (snd (flush example_flush_env example_handler))) =
     PutObject ''tigerscope''
       (object_key (fe_now example_flush_env) (randomHex 8 (fe_rand_key example_flush_env)))
       [example_event]"
    using T [THEN conjunct1, rule_format, OF f] by (simp add: b e)
  have tick: "flush_called (snd (on_tick example_handler example_iter_env))"
    by code_simp
  have c3: "events example_handler \<noteq> [] \<and>
     on_tick example_handler example_iter_env = call_flush example_flush_env example_handler"
    using T [THEN conjunct2, THEN conjunct1, THEN mp, OF tick] by (simp add: fl)
  have called: "flush_called (snd (on_message example_handler_n1 example_message example_iter_env))"
    by code_simp
  from M [THEN conjunct2, THEN conjunct2, THEN conjunct1, THEN mp, OF called]
  obtain ev where pe: "parse_message example_iter_env example_message = Inr ev"
    and om: "on_message example_handler_n1 example_message example_iter_env =
           (fst (call_flush (ie_flush example_iter_env)
                   (example_handler_n1\<lparr>events := events example_handler_n1 @ [ev]\<rparr>)),
            MarkMessage (Offset example_message)
              # snd (call_flush (ie_flush example_iter_env)
                   (example_handler_n1\<lparr>events := events example_handler_n1 @ [ev]\<rparr>)))"
    by (elim exE conjE) (rule that)
  have c4: "\<exists>ev. parse_message example_iter_env example_message = Inr ev \<and>
      on_message example_handler_n1 example_message example_iter_env =
        (fst (call_flush example_flush_env (example_handler_n1\<lparr>events := [example_event, ev]\<rparr>)),
         MarkMessage 41
           # snd (call_flush example_flush_env (example_handler_n1\<lparr>events := [example_event, ev]\<rparr>)))"
    using pe om by (intro exI [of _ ev]) (simp add: fl e1 og)
  have ok: "civil_ok ?c" by (simp add: civil_ok_def)
  have c5: "\<exists>Y M D H. object_key ?c ''0123456789abcdef'' =
        ''telemetry/parquet/date='' @ Y @ ''-'' @ M @ ''-'' @ D @ ''/hour='' @ H
          @ ''/batch-'' @ ''0123456789abcdef'' @ ''.parquet'' \<and>
      length Y = 4 \<and> length M = 2 \<and> length D = 2 \<and> length H = 2 \<and>
      list_all is_digit (Y @ M @ D @ H) \<and>
      int (decimal_value Y) = 2026 \<and> int (decimal_value M) = 1 \<and>
      int (decimal_value D) = 1 \<and> int (decimal_value H) = 0"
    using T [THEN conjunct2, THEN conjunct2, THEN conjunct2, THEN conjunct1, THEN mp, OF ok]
    by (simp add: list_all_iff)
  have c6: "length (randomHex 8 (fe_rand_key example_flush_env)) = 16"
    using T [THEN conjunct2, THEN conjunct2, THEN conjunct2, THEN conjunct2, THEN conjunct1] .
  have c7: "list_all is_hex (randomHex 8 (fe_rand_key example_flush_env))"
    using T [THEN conjunct2, THEN conjunct2, THEN conjunct2, THEN conjunct2, THEN conjunct2,
             THEN conjunct1]
    by (simp add: list_all_iff)
  have u1: "PutObject ''tigerscope'' ?k1 [example_event]
     \<in> set (snd (snd (flush example_flush_env example_handler)))"
    by code_simp
  have u2: "PutObject ''tigerscope'' ?k2 [example_event, example_event]
     \<in> set (snd (snd (flush example_flush_env_later example_handler_two)))"
    by code_simp
  have r: "rand_Read 8 (fe_rand_key example_flush_env)
      \<noteq> rand_Read 8 (fe_rand_key example_flush_env_later)"
    by code_simp
  have c10: "?k1 \<noteq> ?k2"
    by (rule T [THEN conjunct2, THEN conjunct2, THEN conjunct2, THEN conjunct2, THEN conjunct2,
             THEN conjunct2, THEN conjunct1, rule_format,
             OF conjI [OF f1 conjI [OF u1 conjI [OF f2 conjI [OF u2 r]]]]])
  have c11: "object_key ?c (randomHex 8 (fe_rand_key example_flush_env))
     \<noteq> object_key ?c (randomHex 8 (fe_rand_key example_flush_env_later))"
    using T [THEN conjunct2, THEN conjunct2, THEN conjunct2, THEN conjunct2, THEN conjunct2,
             THEN conjunct2, THEN conjunct2] r
    by simp
  show ?thesis
    by (rule conjI [OF c12 [THEN conjunct1] conjI [OF c12 [THEN conjunct2]
          conjI [OF c3 [THEN conjunct1] conjI [OF c3 [THEN conjunct2] conjI [OF c4 conjI [OF c5
          conjI [OF c6 conjI [OF c7 conjI [OF u1 conjI [OF u2 conjI [OF c10 c11]]]]]]]]]]])
qed

subsection \<open>What a row keeps of a message\<close>

text \<open>
  The row of a message does not depend on the message's \<^verbatim>\<open>attributes\<close>, and
  \<^verbatim>\<open>request_id\<close> names no field of the raw event, so neither reaches the rows handed to
  the Parquet writer. How the library lays rows out in the file, and how a reader gets
  them back, is outside this development.
\<close>

lemma row_ignores_attributes:
  assumes "Unmarshal_rawEvent b = Inr r"
    and "Unmarshal_rawEvent b' = Inr (r\<lparr>r_Attributes := x\<rparr>)"
  shows "parseKafkaJSON p n1 n2 b = parseKafkaJSON p n1 n2 b'"
  using assms by (simp add: parseKafkaJSON_def Let_def)

lemma row_has_no_request_id: "find_field rawEvent_fields ''request_id'' = None"
  by code_simp

section \<open>Properties of the ingestion API\<close>

lemma decode_object_strict_unknown:
  "(k, v) \<in> set kvs \<Longrightarrow> find_field names k = None \<Longrightarrow>
     \<exists>err. decode_object True names setf kvs r = Inl err"
proof (induction kvs arbitrary: r)
  case Nil
  then show ?case by simp
next
  case (Cons kv kvs)
  obtain k' v' where kv: "kv = (k', v')" by (cases kv)
  show ?case
  proof (cases "find_field names k'")
    case None
    with kv show ?thesis by simp
  next
    case (Some f)
    with Cons.prems kv have mem: "(k, v) \<in> set kvs" by auto
    show ?thesis
    proof (cases "setf f v' r")
      case (Inl e)
      with Some kv show ?thesis by simp
    next
      case (Inr r')
      with Some kv Cons.IH [OF mem Cons.prems(2), of r'] show ?thesis by simp
    qed
  qed
qed

lemma Decode_unknown_key:
  assumes "doc = Some (JObj kvs)" and "(k, v) \<in> set kvs" and "unknown_key k"
  shows "\<exists>err. Decode parse doc = Inl err"
  using decode_object_strict_unknown [OF assms(2), of TelemetryEvent_fields
      "set_TelemetryEvent parse" TelemetryEvent_zero] assms(1,3)
  by (simp add: Decode_def decode_struct_def unknown_key_def)

lemma ingest_decode_error:
  "rq_method rq = ''POST'' \<Longrightarrow> Decode (ae_parse a) (rq_body rq) = Inl err \<Longrightarrow>
     ingest a rq = (HttpError 400 (InvalidJSON err), [])"
  by (simp add: ingest_def)

lemma missing_required_iff:
  "missing_required ev \<longleftrightarrow>
     (TrimSpace (Service ev) = [] \<or> TrimSpace (CustomerID ev) = [] \<or>
      TrimSpace (Endpoint ev) = [] \<or> TrimSpace (Method ev) = [] \<or> StatusCode ev = 0)"
  by (simp add: missing_required_def)

lemma missing_required_normalized:
  "missing_required (ev\<lparr>Timestamp := t, IngestedAt := n, SchemaVer := v, Environment := e\<rparr>)
     = missing_required ev"
  by (simp add: missing_required_def)

lemma ingest_missing:
  "rq_method rq = ''POST'' \<Longrightarrow> Decode (ae_parse a) (rq_body rq) = Inr ev \<Longrightarrow>
     missing_required ev \<Longrightarrow> ingest a rq = (HttpError 400 MissingRequiredFields, [])"
  by (simp add: ingest_def Let_def missing_required_normalized)

text \<open>The event the handler publishes for a decoded payload.\<close>

lemma ingest_complete:
  assumes "rq_method rq = ''POST''" and "Decode (ae_parse a) (rq_body rq) = Inr ev"
    and "\<not> missing_required ev"
  shows "\<exists>ev2 msg.
     ev2 = ev\<lparr>Timestamp := (if IsZero (Timestamp ev) then UTC (ae_now a) else UTC (Timestamp ev)),
               IngestedAt := UTC (ae_now a), SchemaVer := 1, Environment := ae_env a,
               TraceID := (if TraceID ev = [] then randomHex 16 (ae_rand_trace a) else TraceID ev),
               RequestID := randomHex 12 (ae_rand_request a)\<rparr> \<and>
     msg = \<lparr>pm_Topic = ae_topic a, pm_Key = CustomerID ev, pm_Value = ev2,
            pm_Headers = [(''service'', Service ev), (''env'', ae_env a)],
            pm_Timestamp = UTC (ae_now a)\<rparr> \<and>
     ingest a rq =
       (if ae_marshal_fails a ev2 then (HttpError 500 MarshalError, [])
        else case ae_send a of
               Inl err \<Rightarrow> (HttpError 502 (PublishFailed err), [msg])
             | Inr po \<Rightarrow>
                 if ae_ctx_done a then (HttpError 504 RequestTimeout, [msg])
                 else (HttpAccepted 202
                         \<lparr>ac_status = ''accepted'', ac_topic = ae_topic a,
                          ac_partition = fst po, ac_offset = snd po,
                          ac_trace_id = TraceID ev2, ac_request_id = RequestID ev2\<rparr>,
                       [msg]))"
  using assms
  by (simp add: ingest_def Let_def missing_required_normalized split: sum.splits prod.splits)


lemma ingest_not_post: "rq_method rq \<noteq> ''POST'' \<Longrightarrow> ingest a rq = (HttpError 405 MethodNotAllowed, [])"
  by (simp add: ingest_def)

lemma ingest_accepted:
  assumes "ingest a rq = (HttpAccepted c acc, msgs)"
  shows "rq_method rq = ''POST'' \<and>
         (\<exists>ev. Decode (ae_parse a) (rq_body rq) = Inr ev \<and> \<not> missing_required ev)"
proof -
  have post: "rq_method rq = ''POST''"
    using assms ingest_not_post [of rq a] by (cases "rq_method rq = ''POST''") simp_all
  show ?thesis
  proof (cases "Decode (ae_parse a) (rq_body rq)")
    case (Inl err)
    with post assms show ?thesis by (simp add: ingest_decode_error)
  next
    case (Inr ev)
    with post assms have "\<not> missing_required ev"
      using ingest_missing [of rq a ev] by auto
    with post Inr show ?thesis by simp
  qed
qed

lemma ingest_messages:
  assumes "m \<in> set (snd (ingest a rq))"
  shows "\<exists>ev. Decode (ae_parse a) (rq_body rq) = Inr ev \<and> \<not> missing_required ev \<and>
           snd (ingest a rq) = [m] \<and>
           pm_Value m =
             ev\<lparr>Timestamp := (if IsZero (Timestamp ev) then UTC (ae_now a) else UTC (Timestamp ev)),
                IngestedAt := UTC (ae_now a), SchemaVer := 1, Environment := ae_env a,
                TraceID := (if TraceID ev = [] then randomHex 16 (ae_rand_trace a) else TraceID ev),
                RequestID := randomHex 12 (ae_rand_request a)\<rparr>"
proof -
  have post: "rq_method rq = ''POST''"
    using assms ingest_not_post [of rq a] by (cases "rq_method rq = ''POST''") simp_all
  show ?thesis
  proof (cases "Decode (ae_parse a) (rq_body rq)")
    case (Inl err)
    with post assms show ?thesis by (simp add: ingest_decode_error)
  next
    case (Inr ev)
    with post assms have nm: "\<not> missing_required ev"
      using ingest_missing [of rq a ev] by auto
    from ingest_complete [OF post Inr nm] assms Inr nm show ?thesis
      by (auto split: if_splits sum.splits)
  qed
qed

text \<open>
  C4. A POST request whose decoded payload has a \<^verbatim>\<open>service\<close>, \<^verbatim>\<open>customer_id\<close>,
  \<^verbatim>\<open>endpoint\<close> or \<^verbatim>\<open>method\<close> that is empty after \<^verbatim>\<open>strings.TrimSpace\<close>, or a
  \<^verbatim>\<open>status_code\<close> of zero, is answered with status 400 and nothing is passed to the
  producer. A payload with all four strings not blank and a status code other than zero
  passes the check: the answer is not 400, and a message is passed to the producer unless
  marshalling fails. No request answered with 400 publishes anything.
\<close>

theorem required_fields_checked:
  "(rq_method rq = ''POST'' \<and> Decode (ae_parse a) (rq_body rq) = Inr ev \<longrightarrow>
      ((TrimSpace (Service ev) = [] \<or> TrimSpace (CustomerID ev) = [] \<or>
        TrimSpace (Endpoint ev) = [] \<or> TrimSpace (Method ev) = [] \<or> StatusCode ev = 0)
         \<longrightarrow> ingest a rq = (HttpError 400 MissingRequiredFields, [])) \<and>
      (TrimSpace (Service ev) \<noteq> [] \<and> TrimSpace (CustomerID ev) \<noteq> [] \<and>
       TrimSpace (Endpoint ev) \<noteq> [] \<and> TrimSpace (Method ev) \<noteq> [] \<and> StatusCode ev \<noteq> 0
         \<longrightarrow> status_code (fst (ingest a rq)) \<noteq> 400 \<and>
             (snd (ingest a rq) = [] \<longrightarrow> fst (ingest a rq) = HttpError 500 MarshalError))) \<and>
   (status_code (fst (ingest a rq)) = 400 \<longrightarrow> snd (ingest a rq) = [])"
proof -
  have p1: "ingest a rq = (HttpError 400 MissingRequiredFields, [])"
    if "rq_method rq = ''POST''" "Decode (ae_parse a) (rq_body rq) = Inr ev"
      "TrimSpace (Service ev) = [] \<or> TrimSpace (CustomerID ev) = [] \<or>
        TrimSpace (Endpoint ev) = [] \<or> TrimSpace (Method ev) = [] \<or> StatusCode ev = 0"
    using that by (simp add: ingest_missing missing_required_iff)
  have p2: "status_code (fst (ingest a rq)) \<noteq> 400 \<and>
             (snd (ingest a rq) = [] \<longrightarrow> fst (ingest a rq) = HttpError 500 MarshalError)"
    if "rq_method rq = ''POST''" "Decode (ae_parse a) (rq_body rq) = Inr ev"
      "TrimSpace (Service ev) \<noteq> [] \<and> TrimSpace (CustomerID ev) \<noteq> [] \<and>
       TrimSpace (Endpoint ev) \<noteq> [] \<and> TrimSpace (Method ev) \<noteq> [] \<and> StatusCode ev \<noteq> 0"
  proof -
    from that(3) have "\<not> missing_required ev" by (simp add: missing_required_iff)
    from ingest_complete [OF that(1,2) this] show ?thesis
      by (auto split: if_splits sum.splits)
  qed
  have p3: "status_code (fst (ingest a rq)) = 400 \<longrightarrow> snd (ingest a rq) = []"
  proof (cases "snd (ingest a rq)")
    case Nil
    then show ?thesis by simp
  next
    case (Cons m ms)
    then have "m \<in> set (snd (ingest a rq))" by simp
    then obtain ev where d: "Decode (ae_parse a) (rq_body rq) = Inr ev"
      and nm: "\<not> missing_required ev"
      using ingest_messages by blast
    have post: "rq_method rq = ''POST''"
      using Cons ingest_not_post [of rq a] by (cases "rq_method rq = ''POST''") simp_all
    from ingest_complete [OF post d nm] show ?thesis
      by (auto split: if_splits sum.splits)
  qed
  from p1 p2 p3 show ?thesis by blast
qed

lemma decode_no_unknown:
  "decode_string f v s \<noteq> Inl (UnknownField k)"
  "decode_int b f v i \<noteq> Inl (UnknownField k)"
  "decode_time parse f v t \<noteq> Inl (UnknownField k)"
  by (auto simp: decode_string_def decode_int_def decode_time_def split: json.splits option.splits)

lemma decode_map_members_no_unknown: "decode_map_members f kvs m \<noteq> Inl (UnknownField k)"
  by (induction f kvs m rule: decode_map_members.induct) (auto split: json.splits)

lemma decode_attrs_no_unknown: "decode_attrs f v m \<noteq> Inl (UnknownField k)"
  by (auto simp: decode_attrs_def decode_map_members_no_unknown split: json.splits)

lemma map_sum_id_Inl: "map_sum id g x = Inl e \<longleftrightarrow> x = Inl e"
  by (cases x) simp_all

lemma set_TelemetryEvent_no_unknown: "set_TelemetryEvent parse f v ev \<noteq> Inl (UnknownField k)"
  by (simp add: set_TelemetryEvent_def map_sum_id_Inl decode_no_unknown decode_attrs_no_unknown)

lemma decode_object_unknown_only:
  assumes "decode_object True names setf kvs r = Inl (UnknownField k)"
    and "\<And>f v r. setf f v r \<noteq> Inl (UnknownField k)"
  shows "\<exists>v. (k, v) \<in> set kvs \<and> find_field names k = None"
  using assms(1)
proof (induction kvs arbitrary: r)
  case Nil
  then show ?case by simp
next
  case (Cons kv kvs)
  obtain k' v' where kv: "kv = (k', v')" by (cases kv)
  show ?case
  proof (cases "find_field names k'")
    case None
    with Cons.prems kv have "k' = k" by simp
    with None kv show ?thesis by auto
  next
    case (Some f)
    show ?thesis
    proof (cases "setf f v' r")
      case (Inl e)
      with Some kv Cons.prems have "setf f v' r = Inl (UnknownField k)" by simp
      with assms(2) show ?thesis by simp
    next
      case (Inr r')
      with Some kv Cons.prems have "decode_object True names setf kvs r' = Inl (UnknownField k)"
        by simp
      from Cons.IH [OF this] show ?thesis by auto
    qed
  qed
qed

lemma Decode_unknown_only:
  assumes "Decode parse doc = Inl (UnknownField k)"
  shows "\<exists>kvs v. doc = Some (JObj kvs) \<and> (k, v) \<in> set kvs \<and> unknown_key k"
proof -
  from assms obtain kvs where d: "doc = Some (JObj kvs)"
    by (auto simp: Decode_def decode_struct_def split: option.splits json.splits)
  with assms have "decode_object True TelemetryEvent_fields (set_TelemetryEvent parse) kvs
      TelemetryEvent_zero = Inl (UnknownField k)"
    by (simp add: Decode_def decode_struct_def)
  from decode_object_unknown_only [OF this set_TelemetryEvent_no_unknown] d
  show ?thesis by (auto simp: unknown_key_def)
qed

text \<open>
  C5, as the code has it. A POST request whose body is an object with a key that names
  no field of the request struct is rejected by the strict decoder: the answer is 400
  and nothing is passed to the producer. A key names a field when it equals the field's
  JSON name, or folds to the same name (the decoder's match is case-insensitive); any
  other key is unknown, and only such a key is ever reported as an unknown field.
\<close>

theorem unknown_fields_rejected:
  "(rq_method rq = ''POST'' \<and> rq_body rq = Some (JObj kvs) \<and> (k, v) \<in> set kvs \<and> unknown_key k
      \<longrightarrow> (\<exists>err. Decode (ae_parse a) (rq_body rq) = Inl err \<and>
                 ingest a rq = (HttpError 400 (InvalidJSON err), []))) \<and>
   (unknown_key k \<longleftrightarrow>
      k \<notin> set TelemetryEvent_fields \<and>
      (\<forall>n \<in> set TelemetryEvent_fields. foldName n \<noteq> foldName k)) \<and>
   (Decode (ae_parse a) (rq_body rq) = Inl (UnknownField k) \<longrightarrow>
      (\<exists>kvs' v'. rq_body rq = Some (JObj kvs') \<and> (k, v') \<in> set kvs' \<and> unknown_key k))"
proof -
  have p1: "\<exists>err. Decode (ae_parse a) (rq_body rq) = Inl err \<and>
                 ingest a rq = (HttpError 400 (InvalidJSON err), [])"
    if "rq_method rq = ''POST'' \<and> rq_body rq = Some (JObj kvs) \<and> (k, v) \<in> set kvs \<and> unknown_key k"
  proof -
    from that obtain err where "Decode (ae_parse a) (rq_body rq) = Inl err"
      using Decode_unknown_key [of "rq_body rq" kvs k v "ae_parse a"] by blast
    with that show ?thesis using ingest_decode_error [of rq a err] by blast
  qed
  have p2: "unknown_key k \<longleftrightarrow>
      k \<notin> set TelemetryEvent_fields \<and>
      (\<forall>n \<in> set TelemetryEvent_fields. foldName n \<noteq> foldName k)"
    by (auto simp: unknown_key_def find_field_def find_None_iff)
  have p3: "Decode (ae_parse a) (rq_body rq) = Inl (UnknownField k) \<longrightarrow>
      (\<exists>kvs' v'. rq_body rq = Some (JObj kvs') \<and> (k, v') \<in> set kvs' \<and> unknown_key k)"
    by (intro impI) (rule Decode_unknown_only)
  from p1 have q1: "rq_method rq = ''POST'' \<and> rq_body rq = Some (JObj kvs) \<and> (k, v) \<in> set kvs \<and> unknown_key k
      \<longrightarrow> (\<exists>err. Decode (ae_parse a) (rq_body rq) = Inl err \<and>
                 ingest a rq = (HttpError 400 (InvalidJSON err), []))"
    by (intro impI)
  show ?thesis by (rule conjI [OF q1 conjI [OF p2 p3]])
qed

text \<open>
  C5 as stated fails: the schema's names are lower-case, yet a body that spells two of
  them \<^verbatim>\<open>SERVICE\<close> and \<^verbatim>\<open>Customer_ID\<close> is not rejected. The decoder takes the two members
  as the fields \<^verbatim>\<open>service\<close> and \<^verbatim>\<open>customer_id\<close>, the answer is 202 and the event is
  published, the same event as for the body with the schema's own spelling.
\<close>

theorem unknown_fields_counterexample:
  "rq_method example_request_upper = ''POST'' \<and>
   rq_body example_request_upper = Some (JObj
        [(''SERVICE'', JStr ''auth''), (''Customer_ID'', JStr ''c1''),
         (''endpoint'', JStr ''/x''), (''method'', JStr ''GET''), (''status_code'', JInt 200)]) \<and>
   ''SERVICE'' \<notin> set TelemetryEvent_fields \<and>
   ''Customer_ID'' \<notin> set TelemetryEvent_fields \<and>
   ingest example_api_env example_request_upper =
     (HttpAccepted 202
        \<lparr>ac_status = ''accepted'', ac_topic = ''telemetry.events'', ac_partition = 0,
         ac_offset = 42, ac_trace_id = ''00112233445566778899aabbccddeeff'',
         ac_request_id = ''0123456789abcdef01234567''\<rparr>,
      snd (ingest example_api_env example_request)) \<and>
   length (snd (ingest example_api_env example_request)) = 1 \<and>
   Service (pm_Value (hd (snd (ingest example_api_env example_request_upper)))) = ''auth'' \<and>
   CustomerID (pm_Value (hd (snd (ingest example_api_env example_request_upper)))) = ''c1''"
  by code_simp

lemma ingest_ignores_server_fields:
  assumes "Decode (ae_parse a) b1 = Inr ev"
    and "Decode (ae_parse a) b2 =
           Inr (ev\<lparr>IngestedAt := t, SchemaVer := v, Environment := s, RequestID := r\<rparr>)"
  shows "ingest a \<lparr>rq_method = ''POST'', rq_body = b1\<rparr>
           = ingest a \<lparr>rq_method = ''POST'', rq_body = b2\<rparr>"
  using assms
  by (simp add: ingest_def Let_def missing_required_def split: sum.splits prod.splits)

text \<open>
  C6. Every message the handler passes to the producer carries \<^verbatim>\<open>ingested_at\<close> equal to
  the handler's clock reading in UTC, \<^verbatim>\<open>schema_version\<close> 1, \<^verbatim>\<open>environment\<close> equal to the
  deployment's value and \<^verbatim>\<open>request_id\<close> equal to the hex encoding of the 12 bytes read
  from the random source, which is also the \<^verbatim>\<open>request_id\<close> of the acceptance response.
  Two payloads that decode to events differing only in these four fields get the same
  response and the same published message, in the same surroundings: what the caller
  wrote there has no effect.
\<close>

theorem server_fields_overwritten:
  "(\<forall>m \<in> set (snd (ingest a rq)).
      IngestedAt (pm_Value m) = UTC (ae_now a) \<and> SchemaVer (pm_Value m) = 1 \<and>
      Environment (pm_Value m) = ae_env a \<and>
      RequestID (pm_Value m) = randomHex 12 (ae_rand_request a)) \<and>
   (\<forall>c acc msgs. ingest a rq = (HttpAccepted c acc, msgs) \<longrightarrow>
      (\<exists>m. msgs = [m]) \<and> ac_request_id acc = randomHex 12 (ae_rand_request a)) \<and>
   (\<forall>b1 b2 ev t v s r.
      Decode (ae_parse a) b1 = Inr ev \<and>
      Decode (ae_parse a) b2 =
        Inr (ev\<lparr>IngestedAt := t, SchemaVer := v, Environment := s, RequestID := r\<rparr>) \<longrightarrow>
      ingest a \<lparr>rq_method = ''POST'', rq_body = b1\<rparr>
        = ingest a \<lparr>rq_method = ''POST'', rq_body = b2\<rparr>)"
proof -
  have p1: "\<forall>m \<in> set (snd (ingest a rq)).
      IngestedAt (pm_Value m) = UTC (ae_now a) \<and> SchemaVer (pm_Value m) = 1 \<and>
      Environment (pm_Value m) = ae_env a \<and>
      RequestID (pm_Value m) = randomHex 12 (ae_rand_request a)"
  proof
    fix m assume "m \<in> set (snd (ingest a rq))"
    then obtain ev where "pm_Value m =
             ev\<lparr>Timestamp := (if IsZero (Timestamp ev) then UTC (ae_now a) else UTC (Timestamp ev)),
                IngestedAt := UTC (ae_now a), SchemaVer := 1, Environment := ae_env a,
                TraceID := (if TraceID ev = [] then randomHex 16 (ae_rand_trace a) else TraceID ev),
                RequestID := randomHex 12 (ae_rand_request a)\<rparr>"
      using ingest_messages by blast
    then show "IngestedAt (pm_Value m) = UTC (ae_now a) \<and> SchemaVer (pm_Value m) = 1 \<and>
      Environment (pm_Value m) = ae_env a \<and>
      RequestID (pm_Value m) = randomHex 12 (ae_rand_request a)"
      by simp
  qed
  have p2: "(\<exists>m. msgs = [m]) \<and> ac_request_id acc = randomHex 12 (ae_rand_request a)"
    if acc: "ingest a rq = (HttpAccepted c acc, msgs)" for c acc msgs
  proof -
    from ingest_accepted [OF acc] obtain ev where post: "rq_method rq = ''POST''"
      and d: "Decode (ae_parse a) (rq_body rq) = Inr ev" and nm: "\<not> missing_required ev"
      by blast
    from ingest_complete [OF post d nm] acc show ?thesis
      by (auto split: if_splits sum.splits)
  qed
  have p3: "\<forall>b1 b2 ev t v s r.
      Decode (ae_parse a) b1 = Inr ev \<and>
      Decode (ae_parse a) b2 =
        Inr (ev\<lparr>IngestedAt := t, SchemaVer := v, Environment := s, RequestID := r\<rparr>) \<longrightarrow>
      ingest a \<lparr>rq_method = ''POST'', rq_body = b1\<rparr>
        = ingest a \<lparr>rq_method = ''POST'', rq_body = b2\<rparr>"
    using ingest_ignores_server_fields by blast
  have q2: "\<forall>c acc msgs. ingest a rq = (HttpAccepted c acc, msgs) \<longrightarrow>
      (\<exists>m. msgs = [m]) \<and> ac_request_id acc = randomHex 12 (ae_rand_request a)"
    by (intro allI impI) (rule p2)
  show ?thesis by (rule conjI [OF p1 conjI [OF q2 p3]])
qed

text \<open>
  C7, as the code has it. For an accepted request the response has status 202 and a
  \<^verbatim>\<open>request_id\<close> of 24 hexadecimal characters. When the payload's \<^verbatim>\<open>trace_id\<close> is the
  empty string (which is also what an absent or \<^verbatim>\<open>null\<close> \<^verbatim>\<open>trace_id\<close> decodes to), the
  response's \<^verbatim>\<open>trace_id\<close> is the hex encoding of 16 bytes (128 bits) read from the random
  source: 32 hexadecimal characters. Any other \<^verbatim>\<open>trace_id\<close> is kept as the caller wrote
  it. The published event carries the same two identifiers as the response.
\<close>

theorem trace_and_request_ids:
  "ingest a rq = (HttpAccepted c acc, msgs) \<and> Decode (ae_parse a) (rq_body rq) = Inr ev \<longrightarrow>
     c = 202 \<and>
     length (ac_request_id acc) = 24 \<and> (\<forall>ch \<in> set (ac_request_id acc). is_hex ch) \<and>
     (TraceID ev = [] \<longrightarrow>
        ac_trace_id acc = EncodeToString (rand_Read 16 (ae_rand_trace a)) \<and>
        length (rand_Read 16 (ae_rand_trace a)) = 16 \<and>
        length (ac_trace_id acc) = 32 \<and> (\<forall>ch \<in> set (ac_trace_id acc). is_hex ch)) \<and>
     (TraceID ev \<noteq> [] \<longrightarrow> ac_trace_id acc = TraceID ev) \<and>
     (\<exists>m. msgs = [m] \<and> TraceID (pm_Value m) = ac_trace_id acc \<and>
          RequestID (pm_Value m) = ac_request_id acc)"
proof
  assume h: "ingest a rq = (HttpAccepted c acc, msgs) \<and> Decode (ae_parse a) (rq_body rq) = Inr ev"
  then have acc: "ingest a rq = (HttpAccepted c acc, msgs)"
    and d: "Decode (ae_parse a) (rq_body rq) = Inr ev" by simp_all
  from ingest_accepted [OF acc] d have post: "rq_method rq = ''POST''"
    and nm: "\<not> missing_required ev" by simp_all
  define tid where "tid = (if TraceID ev = [] then randomHex 16 (ae_rand_trace a) else TraceID ev)"
  define rid where "rid = randomHex 12 (ae_rand_request a)"
  from ingest_complete [OF post d nm] acc
  have c: "c = 202" and t: "ac_trace_id acc = tid" and r: "ac_request_id acc = rid"
    and m: "\<exists>m. msgs = [m] \<and> TraceID (pm_Value m) = tid \<and> RequestID (pm_Value m) = rid"
    by (auto simp: tid_def rid_def split: if_splits sum.splits)
  have r1: "length rid = 24" and r2: "\<forall>ch \<in> set rid. is_hex ch"
    by (simp_all add: rid_def length_randomHex hex_randomHex)
  have t1: "TraceID ev = [] \<longrightarrow>
        tid = EncodeToString (rand_Read 16 (ae_rand_trace a)) \<and>
        length (rand_Read 16 (ae_rand_trace a)) = 16 \<and>
        length tid = 32 \<and> (\<forall>ch \<in> set tid. is_hex ch)"
    using length_randomHex [of 16 "ae_rand_trace a"] hex_randomHex [of 16 "ae_rand_trace a"]
    by (simp add: tid_def length_rand_Read) (simp add: randomHex_def)
  have t2: "TraceID ev \<noteq> [] \<longrightarrow> tid = TraceID ev"
    by (simp add: tid_def)
  show "c = 202 \<and>
     length (ac_request_id acc) = 24 \<and> (\<forall>ch \<in> set (ac_request_id acc). is_hex ch) \<and>
     (TraceID ev = [] \<longrightarrow>
        ac_trace_id acc = EncodeToString (rand_Read 16 (ae_rand_trace a)) \<and>
        length (rand_Read 16 (ae_rand_trace a)) = 16 \<and>
        length (ac_trace_id acc) = 32 \<and> (\<forall>ch \<in> set (ac_trace_id acc). is_hex ch)) \<and>
     (TraceID ev \<noteq> [] \<longrightarrow> ac_trace_id acc = TraceID ev) \<and>
     (\<exists>m. msgs = [m] \<and> TraceID (pm_Value m) = ac_trace_id acc \<and>
          RequestID (pm_Value m) = ac_request_id acc)"
    unfolding t r by (intro conjI c r1 r2 t1 t2 m)
qed

text \<open>
  C7 as stated fails: the handler compares \<^verbatim>\<open>trace_id\<close> with the empty string and does not
  trim it, unlike the check of the required fields. A \<^verbatim>\<open>trace_id\<close> of two spaces is blank
  after trimming, yet no identifier is generated for it: the request is accepted and the
  response and the published event carry the two spaces, which are not 32 hexadecimal
  characters.
\<close>

theorem blank_trace_id_counterexample:
  "rq_body example_request_space_trace = Some (JObj
        [(''service'', JStr ''auth''), (''customer_id'', JStr ''c1''),
         (''endpoint'', JStr ''/x''), (''method'', JStr ''GET''), (''status_code'', JInt 200),
         (''trace_id'', JStr ''  '')]) \<and>
   TrimSpace ''  '' = [] \<and>
   fst (ingest example_api_env example_request_space_trace) =
     HttpAccepted 202
        \<lparr>ac_status = ''accepted'', ac_topic = ''telemetry.events'', ac_partition = 0,
         ac_offset = 42, ac_trace_id = ''  '',
         ac_request_id = ''0123456789abcdef01234567''\<rparr> \<and>
   length ''  '' \<noteq> 32 \<and>
   \<not> list_all is_hex ''  '' \<and>
   TraceID (pm_Value (hd (snd (ingest example_api_env example_request_space_trace)))) = ''  ''"
  by code_simp

lemma example_decodes:
  "Decode (ae_parse example_api_env) (rq_body example_request) = Inr example_payload"
  "Decode (ae_parse example_api_env) (rq_body example_request_blank)
     = Inr (example_payload\<lparr>Service := ''  ''\<rparr>)"
  "Decode (ae_parse example_api_env) (rq_body example_request_traced)
     = Inr (example_payload\<lparr>TraceID := ''my-trace''\<rparr>)"
  "Decode (ae_parse example_api_env) (rq_body example_request_space_trace)
     = Inr (example_payload\<lparr>TraceID := ''  ''\<rparr>)"
  "Decode (ae_parse example_api_env) (rq_body example_request_forged)
     = Inr (example_payload\<lparr>TraceID := ''my-trace'',
              IngestedAt := \<lparr>unix_ns = 1767225600000000000, zone = 0\<rparr>,
              SchemaVer := 7, Environment := ''prod'', RequestID := ''mine''\<rparr>)"
  by code_simp+

lemma example_posts:
  "rq_method example_request = ''POST''" "rq_method example_request_blank = ''POST''"
  "rq_method example_request_foo = ''POST''"
  by (simp_all add: example_request_def example_request_blank_def example_request_foo_def)

theorem required_fields_checked_witness:
  "ingest example_api_env example_request_blank = (HttpError 400 MissingRequiredFields, []) \<and>
   status_code (fst (ingest example_api_env example_request)) \<noteq> 400 \<and>
   snd (ingest example_api_env example_request) \<noteq> [] \<and>
   snd (ingest example_api_env example_request_foo) = []"
proof -
  note B = required_fields_checked [of example_request_blank example_api_env
      "example_payload\<lparr>Service := ''  ''\<rparr>"]
  note G = required_fields_checked [of example_request example_api_env example_payload]
  note F = required_fields_checked [of example_request_foo example_api_env example_payload]
  have blank: "TrimSpace (Service (example_payload\<lparr>Service := ''  ''\<rparr>)) = [] \<or>
      TrimSpace (CustomerID (example_payload\<lparr>Service := ''  ''\<rparr>)) = [] \<or>
      TrimSpace (Endpoint (example_payload\<lparr>Service := ''  ''\<rparr>)) = [] \<or>
      TrimSpace (Method (example_payload\<lparr>Service := ''  ''\<rparr>)) = [] \<or>
      StatusCode (example_payload\<lparr>Service := ''  ''\<rparr>) = 0"
    by code_simp
  have full: "TrimSpace (Service example_payload) \<noteq> [] \<and>
      TrimSpace (CustomerID example_payload) \<noteq> [] \<and>
      TrimSpace (Endpoint example_payload) \<noteq> [] \<and>
      TrimSpace (Method example_payload) \<noteq> [] \<and> StatusCode example_payload \<noteq> 0"
    by code_simp
  have c1: "ingest example_api_env example_request_blank = (HttpError 400 MissingRequiredFields, [])"
    using B [THEN conjunct1, THEN mp, OF conjI [OF example_posts(2) example_decodes(2)],
             THEN conjunct1, THEN mp, OF blank] .
  note G' = G [THEN conjunct1, THEN mp, OF conjI [OF example_posts(1) example_decodes(1)],
               THEN conjunct2, THEN mp, OF full]
  have c2: "status_code (fst (ingest example_api_env example_request)) \<noteq> 400"
    using G' by (rule conjunct1)
  have n500: "fst (ingest example_api_env example_request) \<noteq> HttpError 500 MarshalError"
    by code_simp
  have c3: "snd (ingest example_api_env example_request) \<noteq> []"
    using G' [THEN conjunct2] n500 by blast
  have s400: "status_code (fst (ingest example_api_env example_request_foo)) = 400"
    by code_simp
  have c4: "snd (ingest example_api_env example_request_foo) = []"
    using F [THEN conjunct2, THEN mp, OF s400] .
  show ?thesis by (rule conjI [OF c1 conjI [OF c2 conjI [OF c3 c4]]])
qed

theorem unknown_fields_rejected_witness:
  "unknown_key ''foo'' \<and>
   Decode (ae_parse example_api_env) (rq_body example_request_foo) = Inl (UnknownField ''foo'') \<and>
   ingest example_api_env example_request_foo
     = (HttpError 400 (InvalidJSON (UnknownField ''foo'')), []) \<and>
   (\<exists>kvs v. rq_body example_request_foo = Some (JObj kvs) \<and> (''foo'', v) \<in> set kvs)"
proof -
  let ?kvs = "[(''service'', JStr ''auth''), (''customer_id'', JStr ''c1''),
         (''endpoint'', JStr ''/x''), (''method'', JStr ''GET''), (''status_code'', JInt 200),
         (''foo'', JStr ''bar'')]"
  note T = unknown_fields_rejected [of example_request_foo ?kvs "''foo''" "JStr ''bar''"
      example_api_env]
  have far: "''foo'' \<notin> set TelemetryEvent_fields \<and>
      (\<forall>n \<in> set TelemetryEvent_fields. foldName n \<noteq> foldName ''foo'')"
    by code_simp
  have u: "unknown_key ''foo''"
    using T [THEN conjunct2, THEN conjunct1, THEN iffD2, OF far] .
  have h: "rq_method example_request_foo = ''POST'' \<and> rq_body example_request_foo = Some (JObj ?kvs) \<and>
      (''foo'', JStr ''bar'') \<in> set ?kvs \<and> unknown_key ''foo''"
    using u by (simp add: example_request_foo_def)
  have d: "Decode (ae_parse example_api_env) (rq_body example_request_foo)
      = Inl (UnknownField ''foo'')"
    by code_simp
  from T [THEN conjunct1, THEN mp, OF h]
  have i: "ingest example_api_env example_request_foo
     = (HttpError 400 (InvalidJSON (UnknownField ''foo'')), [])"
    unfolding d by simp
  from T [THEN conjunct2, THEN conjunct2, THEN mp, OF d]
  have k: "\<exists>kvs v. rq_body example_request_foo = Some (JObj kvs) \<and> (''foo'', v) \<in> set kvs"
    by blast
  show ?thesis by (rule conjI [OF u conjI [OF d conjI [OF i k]]])
qed

lemma example_accepted:
  "ingest example_api_env example_request =
     (HttpAccepted 202
        \<lparr>ac_status = ''accepted'', ac_topic = ''telemetry.events'', ac_partition = 0,
         ac_offset = 42, ac_trace_id = ''00112233445566778899aabbccddeeff'',
         ac_request_id = ''0123456789abcdef01234567''\<rparr>,
      snd (ingest example_api_env example_request))"
  "ingest example_api_env example_request_forged =
     (HttpAccepted 202
        \<lparr>ac_status = ''accepted'', ac_topic = ''telemetry.events'', ac_partition = 0,
         ac_offset = 42, ac_trace_id = ''my-trace'',
         ac_request_id = ''0123456789abcdef01234567''\<rparr>,
      snd (ingest example_api_env example_request_forged))"
  "ingest example_api_env example_request_space_trace =
     (HttpAccepted 202
        \<lparr>ac_status = ''accepted'', ac_topic = ''telemetry.events'', ac_partition = 0,
         ac_offset = 42, ac_trace_id = ''  '',
         ac_request_id = ''0123456789abcdef01234567''\<rparr>,
      snd (ingest example_api_env example_request_space_trace))"
  by code_simp+

theorem server_fields_overwritten_witness:
  "IngestedAt (pm_Value (hd (snd (ingest example_api_env example_request_forged))))
     = \<lparr>unix_ns = 1767225601000000000, zone = 0\<rparr> \<and>
   SchemaVer (pm_Value (hd (snd (ingest example_api_env example_request_forged)))) = 1 \<and>
   Environment (pm_Value (hd (snd (ingest example_api_env example_request_forged)))) = ''local'' \<and>
   RequestID (pm_Value (hd (snd (ingest example_api_env example_request_forged))))
     = ''0123456789abcdef01234567'' \<and>
   (\<exists>m. snd (ingest example_api_env example_request_forged) = [m]) \<and>
   ingest example_api_env example_request_traced = ingest example_api_env example_request_forged"
proof -
  note T = server_fields_overwritten [of example_api_env example_request_forged]
  have ne: "hd (snd (ingest example_api_env example_request_forged))
      \<in> set (snd (ingest example_api_env example_request_forged))"
    by code_simp
  have v: "UTC (ae_now example_api_env) = \<lparr>unix_ns = 1767225601000000000, zone = 0\<rparr>"
    "ae_env example_api_env = ''local''"
    "randomHex 12 (ae_rand_request example_api_env) = ''0123456789abcdef01234567''"
    by code_simp+
  have c14: "IngestedAt (pm_Value (hd (snd (ingest example_api_env example_request_forged))))
       = \<lparr>unix_ns = 1767225601000000000, zone = 0\<rparr> \<and>
     SchemaVer (pm_Value (hd (snd (ingest example_api_env example_request_forged)))) = 1 \<and>
     Environment (pm_Value (hd (snd (ingest example_api_env example_request_forged)))) = ''local'' \<and>
     RequestID (pm_Value (hd (snd (ingest example_api_env example_request_forged))))
       = ''0123456789abcdef01234567''"
    using T [THEN conjunct1, THEN bspec, OF ne] by (simp only: v)
  have c5: "\<exists>m. snd (ingest example_api_env example_request_forged) = [m]"
    using T [THEN conjunct2, THEN conjunct1, rule_format, OF example_accepted(2)]
    by (rule conjunct1)
  have r1: "example_request_traced =
      \<lparr>rq_method = ''POST'', rq_body = rq_body example_request_traced\<rparr>"
    and r2: "example_request_forged =
      \<lparr>rq_method = ''POST'', rq_body = rq_body example_request_forged\<rparr>"
    by (simp_all add: example_request_traced_def example_request_forged_def)
  have d2: "Decode (ae_parse example_api_env) (rq_body example_request_forged)
     = Inr (example_payload\<lparr>TraceID := ''my-trace''\<rparr>
              \<lparr>IngestedAt := \<lparr>unix_ns = 1767225600000000000, zone = 0\<rparr>,
               SchemaVer := 7, Environment := ''prod'', RequestID := ''mine''\<rparr>)"
    using example_decodes(5) by simp
  have c6: "ingest example_api_env example_request_traced
      = ingest example_api_env example_request_forged"
    using T [THEN conjunct2, THEN conjunct2, rule_format, OF conjI [OF example_decodes(3) d2]]
    by (subst r1, subst r2)
  show ?thesis
    using c14 c5 c6 by (intro conjI) simp_all
qed

theorem trace_and_request_ids_witness:
  "ac_trace_id (case fst (ingest example_api_env example_request) of HttpAccepted c acc \<Rightarrow> acc)
     = ''00112233445566778899aabbccddeeff'' \<and>
   length ''00112233445566778899aabbccddeeff'' = 32 \<and>
   list_all is_hex ''00112233445566778899aabbccddeeff'' \<and>
   length ''0123456789abcdef01234567'' = 24 \<and>
   list_all is_hex ''0123456789abcdef01234567'' \<and>
   (\<exists>m. snd (ingest example_api_env example_request) = [m] \<and>
      TraceID (pm_Value m) = ''00112233445566778899aabbccddeeff'' \<and>
      RequestID (pm_Value m) = ''0123456789abcdef01234567'') \<and>
   (\<exists>m. snd (ingest example_api_env example_request_forged) = [m] \<and>
      TraceID (pm_Value m) = ''my-trace'') \<and>
   (\<exists>m. snd (ingest example_api_env example_request_space_trace) = [m] \<and>
      TraceID (pm_Value m) = ''  '')"
proof -
  let ?acc1 = "\<lparr>ac_status = ''accepted'', ac_topic = ''telemetry.events'', ac_partition = 0,
         ac_offset = 42, ac_trace_id = ''00112233445566778899aabbccddeeff'',
         ac_request_id = ''0123456789abcdef01234567''\<rparr>"
  let ?acc2 = "\<lparr>ac_status = ''accepted'', ac_topic = ''telemetry.events'', ac_partition = 0,
         ac_offset = 42, ac_trace_id = ''my-trace'',
         ac_request_id = ''0123456789abcdef01234567''\<rparr>"
  let ?acc3 = "\<lparr>ac_status = ''accepted'', ac_topic = ''telemetry.events'', ac_partition = 0,
         ac_offset = 42, ac_trace_id = ''  '',
         ac_request_id = ''0123456789abcdef01234567''\<rparr>"
  note A = trace_and_request_ids [THEN mp, OF conjI [OF example_accepted(1) example_decodes(1)]]
  note B = trace_and_request_ids [THEN mp, OF conjI [OF example_accepted(2) example_decodes(5)]]
  note C = trace_and_request_ids [THEN mp, OF conjI [OF example_accepted(3) example_decodes(4)]]
  have e1: "TraceID example_payload = []" by code_simp
  have c1: "ac_trace_id (case fst (ingest example_api_env example_request) of
      HttpAccepted c acc \<Rightarrow> acc) = ''00112233445566778899aabbccddeeff''"
    by (subst example_accepted(1)) simp
  note A4 = A [THEN conjunct2, THEN conjunct2, THEN conjunct2, THEN conjunct1, THEN mp, OF e1]
  have c2: "length ''00112233445566778899aabbccddeeff'' = 32"
    using A4 [THEN conjunct2, THEN conjunct2, THEN conjunct1] by simp
  have c3: "list_all is_hex ''00112233445566778899aabbccddeeff''"
    using A4 [THEN conjunct2, THEN conjunct2, THEN conjunct2] by (simp add: list_all_iff)
  have c4: "length ''0123456789abcdef01234567'' = 24"
    using A [THEN conjunct2, THEN conjunct1] by simp
  have c5: "list_all is_hex ''0123456789abcdef01234567''"
    using A [THEN conjunct2, THEN conjunct2, THEN conjunct1] by (simp add: list_all_iff)
  have c6: "\<exists>m. snd (ingest example_api_env example_request) = [m] \<and>
      TraceID (pm_Value m) = ''00112233445566778899aabbccddeeff'' \<and>
      RequestID (pm_Value m) = ''0123456789abcdef01234567''"
    using A [THEN conjunct2, THEN conjunct2, THEN conjunct2, THEN conjunct2, THEN conjunct2]
    by simp
  have c7: "\<exists>m. snd (ingest example_api_env example_request_forged) = [m] \<and>
      TraceID (pm_Value m) = ''my-trace''"
    using B [THEN conjunct2, THEN conjunct2, THEN conjunct2, THEN conjunct2, THEN conjunct2]
    by auto
  have c8: "\<exists>m. snd (ingest example_api_env example_request_space_trace) = [m] \<and>
      TraceID (pm_Value m) = ''  ''"
    using C [THEN conjunct2, THEN conjunct2, THEN conjunct2, THEN conjunct2, THEN conjunct2]
    by auto
  show ?thesis
    by (rule conjI [OF c1 conjI [OF c2 conjI [OF c3 conjI [OF c4 conjI [OF c5 conjI [OF c6
         conjI [OF c7 c8]]]]]]])
qed

end
